theory Spec2Isabelle
  imports Complex_Main "HOL-Library.AList" "HOL-Library.Monad_Syntax"
begin

section \<open>The World subsystem of THE-BACKROOMS (src/world.py)\<close>

text \<open>
  A shallow embedding of the class \<open>World\<close>: its caches, its destruction state, the
  progressive wall damage, the debris pool, the collision query and save/load.

  Modelling decisions, valid for the whole development:
  \<^item> A Python \<open>float\<close> is a rational number (\<open>rat\<close>): every finite double is one, and the
    arithmetic is taken exact. The non-finite doubles appear only where the source tests
    for them (\<open>check_collision\<close>), as the datatype \<open>pyfloat\<close>.
  \<^item> A Python \<open>dict\<close> is an association list in insertion order: \<open>d[k] = v\<close> is
    \<open>AList.update\<close> (which overwrites in place or appends), \<open>d.get(k)\<close> and \<open>k in d\<close> are
    \<open>map_of\<close>. A Python \<open>set\<close> is a list, \<open>s.add(k)\<close> is \<open>List.insert\<close>, membership is
    \<open>\<in> set\<close>, and iteration follows the list.
  \<^item> Wall and pillar keys are tuples of integers, typed as such.
  \<^item> An exception is a value: a function that can raise returns
    \<open>(py_error \<times> world) + (result \<times> world)\<close>, the world at \<open>Inl\<close> being the object as the
    exception leaves it (the methods mutate \<open>self\<close> in place).
  \<^item> The modules \<open>config\<close>, \<open>procedural\<close>, \<open>debris\<close> and \<open>events\<close> are not among the sources.
    The constants of \<open>config\<close> are the record \<open>config\<close>; \<open>ProceduralZone\<close>, the class
    \<open>Debris\<close>, Python's \<open>hash\<close>, \<open>random.Random(seed)\<close> and \<open>eval\<close> outside tuple literals are
    the record \<open>externals\<close>. Both are parameters of every function that uses them.
  \<^item> \<open>eval\<close> is followed as far as it is a function of its argument: on the \<open>str\<close> of a key
    it returns the key, and on any other string it may raise before anything has run or
    return a key of the expected shape. Everything else it can do (run an expression that
    changes the world object, the document or the machine, or return a value of another
    shape) is the outcome \<open>Executes\<close>, at which the model of \<open>load_state\<close> ends.
    \<open>event_bus.emit\<close> and \<open>destroy_sound.play()\<close> act on those collaborators only and are
    left out, as are the \<open>print\<close> calls.
  \<^item> The module-level generator \<open>random\<close> is a stream \<open>nat \<Rightarrow> rat\<close> of the values its
    \<open>random()\<close> yields from the moment of the call on; a function that draws from it
    takes the stream as an argument.
\<close>

subsection \<open>Values\<close>

type_synonym point = "int \<times> int"
type_synonym wall_key = "point \<times> point"
type_synonym pillar_key = point
type_synonym crack = "rat \<times> rat \<times> rat \<times> rat"
type_synonym rgb = "int \<times> int \<times> int"
type_synonym rand = "nat \<Rightarrow> rat"

datatype py_error = ZeroDivisionError | KeyError | ValueError | SyntaxError | NameError | TypeError

text \<open>How \<open>load_state\<close> ends when it does not run to its last statement: an exception
  leaves it, or \<open>eval\<close> has been handed a string that the interpreter runs as an
  expression of its own.\<close>

datatype stop = Raises py_error | Executes

datatype pyfloat = Finite rat | PosInf | NegInf | NaN

datatype WallState = INTACT | CRACKED | FRACTURED | BREAKING | DESTROYED

text \<open>The attributes of a \<open>Debris\<close> object that \<open>world.py\<close> reads or writes.\<close>

record debris =
  cx :: rat
  cy :: rat
  cz :: rat
  color :: rgb
  vx :: rat
  vy :: rat
  vz :: rat
  is_settled :: bool
  active :: bool

text \<open>The zone property dictionary; \<open>world.py\<close> reads the entry \<open>'decay_chance'\<close> only.\<close>

record zone_props =
  decay_chance :: rat

record config =
  PILLAR_SPACING :: int
  PILLAR_SIZE :: rat
  PILLAR_MODE :: string
  WALL_THICKNESS :: rat
  ZONE_SIZE :: int
  HALLWAY_WIDTH :: rat
  WALL_COLOR :: rgb
  PILLAR_COLOR :: rgb
  get_scaled_wall_height :: rat
  get_scaled_floor_y :: rat

record externals =
  py_hash :: "int \<times> int \<times> int \<Rightarrow> int"
  Random :: "int \<Rightarrow> rand"
  get_zone_properties_ext :: "int \<Rightarrow> int \<Rightarrow> int \<Rightarrow> zone_props"
  Debris_init :: "rat \<times> rat \<times> rat \<Rightarrow> rgb \<Rightarrow> (rat \<times> rat \<times> rat) option \<Rightarrow> debris"
  Debris_update :: "rat \<Rightarrow> rat \<Rightarrow> debris \<Rightarrow> debris"
  eval_other :: "string \<Rightarrow> stop + wall_key"
  eval_other_pillar :: "string \<Rightarrow> stop + pillar_key"

record world =
  world_seed :: int
  pillar_cache :: "(pillar_key \<times> bool) list"
  wall_cache :: "(wall_key \<times> bool) list"
  zone_cache :: "((int \<times> int) \<times> zone_props) list"
  destroyed_walls :: "wall_key list"
  destroyed_pillars :: "pillar_key list"
  destroyed_lamps :: "int list list"
  triggered_traps :: "int list list"
  pre_damaged_walls :: "(wall_key \<times> rat) list"
  wall_states :: "(wall_key \<times> WallState) list"
  wall_health :: "(wall_key \<times> rat) list"
  wall_cracks :: "(wall_key \<times> crack list) list"
  debris_pieces :: "debris list"
  spawned_rubble :: "wall_key list"

type_synonym 'a result = "(py_error \<times> world) + ('a \<times> world)"

subsection \<open>The module \<open>random\<close> and \<open>math.pi\<close>\<close>

text \<open>\<open>random.uniform(a, b)\<close> is \<open>a + (b - a) * random()\<close>; \<open>random.randint(a, b)\<close> picks an
  integer of \<open>[a, b]\<close> from the same generator.\<close>

definition uniform :: "rat \<Rightarrow> rat \<Rightarrow> rat \<Rightarrow> rat" where
  "uniform a b r = a + (b - a) * r"

definition randint :: "int \<Rightarrow> int \<Rightarrow> rat \<Rightarrow> int" where
  "randint a b r = a + \<lfloor>r * of_int (b - a + 1)\<rfloor>"

definition advance :: "nat \<Rightarrow> rand \<Rightarrow> rand" where
  "advance n rnd = (\<lambda>i. rnd (i + n))"

text \<open>\<open>math.pi\<close> is the double nearest to \<open>\<pi>\<close>, a dyadic rational.\<close>

definition math_pi :: rat where
  "math_pi = 884279719003555 / 281474976710656"

subsection \<open>Construction\<close>

definition World_init :: "int option \<Rightarrow> rand \<Rightarrow> world" where
  "World_init seed rnd =
     \<lparr> world_seed = (case seed of Some s \<Rightarrow> s | None \<Rightarrow> randint 0 999999 (rnd 0)),
       pillar_cache = [], wall_cache = [], zone_cache = [],
       destroyed_walls = [], destroyed_pillars = [], destroyed_lamps = [],
       triggered_traps = [], pre_damaged_walls = [],
       wall_states = [], wall_health = [], wall_cracks = [],
       debris_pieces = [], spawned_rubble = [] \<rparr>"

subsection \<open>Progressive wall damage\<close>

definition is_wall_destroyed :: "world \<Rightarrow> wall_key \<Rightarrow> bool" where
  "is_wall_destroyed w wall_key = (wall_key \<in> set (destroyed_walls w))"

definition get_wall_damage :: "world \<Rightarrow> wall_key \<Rightarrow> rat" where
  "get_wall_damage w wall_key =
     (case map_of (pre_damaged_walls w) wall_key of Some d \<Rightarrow> d | None \<Rightarrow> 1)"

definition get_wall_state :: "world \<Rightarrow> wall_key \<Rightarrow> WallState" where
  "get_wall_state w wall_key =
     (if wall_key \<in> set (destroyed_walls w) then DESTROYED
      else (case map_of (wall_states w) wall_key of Some s \<Rightarrow> s | None \<Rightarrow> INTACT))"

definition get_wall_health :: "world \<Rightarrow> wall_key \<Rightarrow> rat" where
  "get_wall_health w wall_key =
     (if wall_key \<in> set (destroyed_walls w) then 0
      else (case map_of (wall_health w) wall_key of Some h \<Rightarrow> h | None \<Rightarrow> 1))"

definition get_wall_cracks :: "world \<Rightarrow> wall_key \<Rightarrow> crack list" where
  "get_wall_cracks w wall_key =
     (case map_of (wall_cracks w) wall_key of Some cs \<Rightarrow> cs | None \<Rightarrow> [])"

definition get_wall_center :: "config \<Rightarrow> wall_key \<Rightarrow> rat \<times> rat \<times> rat" where
  "get_wall_center cfg wall_key =
     (case wall_key of ((x1, z1), (x2, z2)) \<Rightarrow>
        (of_int (x1 + x2) / 2,
         (get_scaled_floor_y cfg + get_scaled_wall_height cfg) / 2,
         of_int (z1 + z2) / 2))"

text \<open>\<open>_add_crack\<close>: the draws for \<open>u\<close> and \<open>v\<close> are made only when no hit position is
  given; the function returns the generator as it leaves it.\<close>

definition add_crack :: "rand \<Rightarrow> world \<Rightarrow> wall_key \<Rightarrow> rat option \<Rightarrow> rat option \<Rightarrow> world \<times> rand" where
  "add_crack rnd w wall_key hit_u hit_v =
     (let w1 = (if map_of (wall_cracks w) wall_key = None
                then w\<lparr>wall_cracks := AList.update wall_key [] (wall_cracks w)\<rparr> else w);
          (u, rnd1) = (case hit_u of Some h \<Rightarrow> (h, rnd)
                       | None \<Rightarrow> (uniform (1/10) (9/10) (rnd 0), advance 1 rnd));
          (v, rnd2) = (case hit_v of Some h \<Rightarrow> (h, rnd1)
                       | None \<Rightarrow> (uniform (1/10) (9/10) (rnd1 0), advance 1 rnd1));
          angle = uniform 0 math_pi (rnd2 0);
          len = uniform (1/10) (4/10) (rnd2 1);
          old = (case map_of (wall_cracks w1) wall_key of Some cs \<Rightarrow> cs | None \<Rightarrow> [])
      in (w1\<lparr>wall_cracks := AList.update wall_key (old @ [(u, v, angle, len)]) (wall_cracks w1)\<rparr>,
          advance 2 rnd2))"

text \<open>One pass of the loop body of \<open>spawn_wall_debris\<close>: seven draws, one particle appended.\<close>

definition wall_particle :: "config \<Rightarrow> externals \<Rightarrow> rand \<Rightarrow> wall_key \<Rightarrow> debris" where
  "wall_particle cfg ext rnd wall_key =
     (case wall_key of ((x1, z1), (x2, z2)) \<Rightarrow>
        let h = get_scaled_wall_height cfg;
            floor_y = get_scaled_floor_y cfg;
            mx = of_int (x1 + x2) / 2;
            mz = of_int (z1 + z2) / 2;
            offset_x = uniform (- (of_int (PILLAR_SPACING cfg) / 2)) (of_int (PILLAR_SPACING cfg) / 2) (rnd 0);
            offset_z = uniform (- WALL_THICKNESS cfg) (WALL_THICKNESS cfg) (rnd 1);
            py = uniform floor_y h (rnd 2);
            pvx = uniform (-10) 10 (rnd 3);
            pvy = uniform (-5) 5 (rnd 4);
            pvz = uniform (-10) 10 (rnd 5);
            color_var = randint (-40) 20 (rnd 6);
            particle_color = (case WALL_COLOR cfg of (cr, cg, cb) \<Rightarrow>
               (max 0 (min 255 (cr + color_var)),
                max 0 (min 255 (cg + color_var)),
                max 0 (min 255 (cb + color_var))));
            px = (if x1 = x2 then mx + offset_z else mx + offset_x);
            pz = (if x1 = x2 then mz + offset_x else mz + offset_z)
        in Debris_init ext (px, py, pz) particle_color (Some (pvx, pvy, pvz)))"

fun spawn_loop :: "config \<Rightarrow> externals \<Rightarrow> wall_key \<Rightarrow> nat \<Rightarrow> rand \<Rightarrow> world \<Rightarrow> world" where
  "spawn_loop cfg ext wall_key 0 rnd w = w"
| "spawn_loop cfg ext wall_key (Suc n) rnd w =
     spawn_loop cfg ext wall_key n (advance 7 rnd)
       (w\<lparr>debris_pieces := debris_pieces w @ [wall_particle cfg ext rnd wall_key]\<rparr>)"

definition spawn_wall_debris :: "config \<Rightarrow> externals \<Rightarrow> rand \<Rightarrow> world \<Rightarrow> wall_key \<Rightarrow> world" where
  "spawn_wall_debris cfg ext rnd w wall_key = spawn_loop cfg ext wall_key 150 rnd w"

text \<open>\<open>hit_wall\<close>. The subscript \<open>self.wall_states[wall_key]\<close> of the two \<open>elif\<close> conditions
  raises \<open>KeyError\<close> when the key has a health but no state; by then the new health is
  already stored.\<close>

definition hit_wall :: "config \<Rightarrow> externals \<Rightarrow> rand \<Rightarrow> world \<Rightarrow> wall_key \<Rightarrow> rat \<Rightarrow> bool result" where
  "hit_wall cfg ext rnd w wall_key damage =
     (if wall_key \<in> set (destroyed_walls w) then Inr (False, w)
      else
        let w1 = (if map_of (wall_health w) wall_key = None
                  then w\<lparr>wall_health := AList.update wall_key 1 (wall_health w),
                         wall_states := AList.update wall_key INTACT (wall_states w)\<rparr>
                  else w);
            health = (case map_of (wall_health w1) wall_key of Some h \<Rightarrow> h | None \<Rightarrow> 1) - damage;
            w2 = w1\<lparr>wall_health := AList.update wall_key health (wall_health w1)\<rparr>
        in if health \<le> 0 then
             Inr (True,
               spawn_wall_debris cfg ext rnd
                 (w2\<lparr>destroyed_walls := List.insert wall_key (destroyed_walls w2),
                      wall_states := AList.update wall_key DESTROYED (wall_states w2)\<rparr>)
                 wall_key)
           else if health \<le> 33/100 then
             (case map_of (wall_states w2) wall_key of
                None \<Rightarrow> Inl (KeyError, w2)
              | Some st \<Rightarrow>
                  if st \<noteq> FRACTURED then
                    (let w3 = w2\<lparr>wall_states := AList.update wall_key FRACTURED (wall_states w2)\<rparr>;
                         (w4, rnd1) = add_crack rnd w3 wall_key None None;
                         (w5, rnd2) = add_crack rnd1 w4 wall_key None None
                     in Inr (False, w5))
                  else Inr (False, w2))
           else if health \<le> 66/100 then
             (case map_of (wall_states w2) wall_key of
                None \<Rightarrow> Inl (KeyError, w2)
              | Some st \<Rightarrow>
                  if st = INTACT then
                    (let w3 = w2\<lparr>wall_states := AList.update wall_key CRACKED (wall_states w2)\<rparr>;
                         (w4, rnd1) = add_crack rnd w3 wall_key None None
                     in Inr (False, w4))
                  else Inr (False, w2))
           else Inr (False, w2))"

definition destroy_wall :: "config \<Rightarrow> externals \<Rightarrow> rand \<Rightarrow> world \<Rightarrow> wall_key \<Rightarrow> world" where
  "destroy_wall cfg ext rnd w wall_key =
     (if wall_key \<in> set (destroyed_walls w) then w
      else spawn_wall_debris cfg ext rnd
             (w\<lparr>destroyed_walls := List.insert wall_key (destroyed_walls w),
                wall_states := AList.update wall_key DESTROYED (wall_states w),
                wall_health := AList.update wall_key 0 (wall_health w)\<rparr>)
             wall_key)"

subsection \<open>Debris update\<close>

text \<open>\<open>update_debris\<close>: every particle is updated by its own rule, a particle still active
  but too far from the player is deactivated, the inactive ones are dropped, and the list
  is cut to its last \<open>MAX_DEBRIS\<close> elements (the slice \<open>[-MAX_DEBRIS:]\<close>).\<close>

definition cull_step :: "config \<Rightarrow> externals \<Rightarrow> rat \<Rightarrow> rat \<Rightarrow> rat \<Rightarrow> debris \<Rightarrow> debris" where
  "cull_step cfg ext dt player_x player_z d =
     (let DEBRIS_CULL_DIST = 900;
          d1 = Debris_update ext dt (get_scaled_floor_y cfg) d
      in if \<not> active d1 then d1
         else let dx = cx d1 - player_x; dz = cz d1 - player_z
              in if dx * dx + dz * dz > DEBRIS_CULL_DIST * DEBRIS_CULL_DIST
                 then d1\<lparr>active := False\<rparr> else d1)"

definition update_debris :: "config \<Rightarrow> externals \<Rightarrow> world \<Rightarrow> rat \<Rightarrow> rat \<Rightarrow> rat \<Rightarrow> world" where
  "update_debris cfg ext w dt player_x player_z =
     (let MAX_DEBRIS = 12000;
          updated = map (cull_step cfg ext dt player_x player_z) (debris_pieces w);
          live = filter active updated
      in w\<lparr>debris_pieces :=
             (if length live > MAX_DEBRIS then drop (length live - MAX_DEBRIS) live else live)\<rparr>)"

subsection \<open>Keys as strings: \<open>str\<close> and \<open>eval\<close>\<close>

text \<open>\<open>str\<close> of an integer is its decimal numeral with a leading \<open>-\<close> when negative; \<open>str\<close> of
  a tuple is the \<open>repr\<close> of its components, separated by a comma and a space, in
  parentheses.\<close>

definition digit_char :: "nat \<Rightarrow> char" where
  "digit_char d = char_of (48 + d)"

fun str_nat :: "nat \<Rightarrow> string" where
  "str_nat n = (if n < 10 then [digit_char n] else str_nat (n div 10) @ [digit_char (n mod 10)])"

declare str_nat.simps [simp del]

definition str_int :: "int \<Rightarrow> string" where
  "str_int i = (if i < 0 then CHR ''-'' # str_nat (nat (- i)) else str_nat (nat i))"

definition str_point :: "point \<Rightarrow> string" where
  "str_point p = (case p of (x, z) \<Rightarrow> ''('' @ str_int x @ '', '' @ str_int z @ '')'')"

definition str_wall_key :: "wall_key \<Rightarrow> string" where
  "str_wall_key k = (case k of (p, q) \<Rightarrow> ''('' @ str_point p @ '', '' @ str_point q @ '')'')"

text \<open>Reading such a literal back. \<open>eval\<close> on a string that is the \<open>str\<close> of a key returns
  the key. Any other string goes to the Python interpreter: that is the parameter
  \<open>eval_other\<close>, whose value on a string is
  \<^item> \<open>Inl (Raises e)\<close> when the call raises \<open>e\<close> with the world object and the document as
    they were (a string that does not compile raises \<open>SyntaxError\<close> before anything runs);
  \<^item> \<open>Inr k\<close> when the call returns the key \<open>k\<close> and changes nothing (the same tuple written
    with other spacing, say);
  \<^item> \<open>Inl Executes\<close> in every other case: the string is an expression that the interpreter
    runs in the scope of \<open>load_state\<close>, where it can reach \<open>self\<close> and \<open>data\<close>, and whose value
    need not be a key.\<close>

definition is_digit :: "char \<Rightarrow> bool" where
  "is_digit c = (48 \<le> (of_char c :: nat) \<and> (of_char c :: nat) \<le> 57)"

definition digit_val :: "char \<Rightarrow> nat" where
  "digit_val c = of_char c - 48"

definition read_nat :: "string \<Rightarrow> (nat \<times> string) option" where
  "read_nat s =
     (let ds = takeWhile is_digit s
      in if ds = [] then None
         else Some (foldl (\<lambda>a c. 10 * a + digit_val c) 0 ds, dropWhile is_digit s))"

text \<open>A rest of the input at which a run of digits ends.\<close>

definition stops :: "string \<Rightarrow> bool" where
  "stops rest = (case rest of [] \<Rightarrow> True | c # _ \<Rightarrow> \<not> is_digit c)"

definition read_int :: "string \<Rightarrow> (int \<times> string) option" where
  "read_int s =
     (case s of
        [] \<Rightarrow> None
      | c # r \<Rightarrow>
          if c = CHR ''-'' then map_option (\<lambda>(n, r'). (- int n, r')) (read_nat r)
          else map_option (\<lambda>(n, r'). (int n, r')) (read_nat s))"

definition expect :: "string \<Rightarrow> string \<Rightarrow> string option" where
  "expect p s = (if take (length p) s = p then Some (drop (length p) s) else None)"

definition read_point :: "string \<Rightarrow> (point \<times> string) option" where
  "read_point s = do {
     r1 \<leftarrow> expect ''('' s;
     (x, r2) \<leftarrow> read_int r1;
     r3 \<leftarrow> expect '', '' r2;
     (z, r4) \<leftarrow> read_int r3;
     r5 \<leftarrow> expect '')'' r4;
     Some ((x, z), r5)
   }"

definition read_wall_key :: "string \<Rightarrow> (wall_key \<times> string) option" where
  "read_wall_key s = do {
     r1 \<leftarrow> expect ''('' s;
     (p, r2) \<leftarrow> read_point r1;
     r3 \<leftarrow> expect '', '' r2;
     (q, r4) \<leftarrow> read_point r3;
     r5 \<leftarrow> expect '')'' r4;
     Some ((p, q), r5)
   }"

definition literal_wall_key :: "string \<Rightarrow> wall_key option" where
  "literal_wall_key s =
     (case read_wall_key s of
        Some (k, r) \<Rightarrow> if r = [] \<and> str_wall_key k = s then Some k else None
      | None \<Rightarrow> None)"

definition literal_pillar_key :: "string \<Rightarrow> pillar_key option" where
  "literal_pillar_key s =
     (case read_point s of
        Some (k, r) \<Rightarrow> if r = [] \<and> str_point k = s then Some k else None
      | None \<Rightarrow> None)"

definition eval_wall_key :: "externals \<Rightarrow> string \<Rightarrow> stop + wall_key" where
  "eval_wall_key ext s =
     (case literal_wall_key s of Some k \<Rightarrow> Inr k | None \<Rightarrow> eval_other ext s)"

definition eval_pillar_key :: "externals \<Rightarrow> string \<Rightarrow> stop + pillar_key" where
  "eval_pillar_key ext s =
     (case literal_pillar_key s of Some k \<Rightarrow> Inr k | None \<Rightarrow> eval_other_pillar ext s)"

subsection \<open>Save and load\<close>

text \<open>The save document. Every entry is optional, since \<open>load_state\<close> reads each with
  \<open>data.get\<close> and a default. \<open>list(wall)\<close> of a wall key is the two-element list of its
  points and \<open>list(pillar)\<close> the two-element list of its coordinates; they are typed as
  pairs.\<close>

record debris_doc =
  dd_cx :: rat
  dd_cy :: rat
  dd_cz :: rat
  dd_color :: rgb
  dd_vx :: rat
  dd_vy :: rat
  dd_vz :: rat
  dd_is_settled :: "bool option"

record save_doc =
  doc_seed :: "int option"
  doc_wall_cache :: "(string \<times> bool) list option"
  doc_pillar_cache :: "(string \<times> bool) list option"
  doc_destroyed_walls :: "(point \<times> point) list option"
  doc_destroyed_pillars :: "(int \<times> int) list option"
  doc_destroyed_lamps :: "int list list option"
  doc_triggered_traps :: "int list list option"
  doc_wall_states :: "(string \<times> string) list option"
  doc_wall_health :: "(string \<times> rat) list option"
  doc_wall_cracks :: "(string \<times> crack list) list option"
  doc_pre_damaged_walls :: "(string \<times> rat) list option"
  doc_debris_pieces :: "debris_doc list option"

text \<open>A dict comprehension \<open>{f(k): g(v) for k, v in d.items()}\<close> inserts the items one
  after the other.\<close>

definition dict_comp :: "('a \<Rightarrow> 'k) \<Rightarrow> ('b \<Rightarrow> 'v) \<Rightarrow> ('a \<times> 'b) list \<Rightarrow> ('k \<times> 'v) list" where
  "dict_comp f g items = foldl (\<lambda>acc (k, v). AList.update (f k) (g v) acc) [] items"

text \<open>A set built from a list, element by element.\<close>

definition py_set :: "'a list \<Rightarrow> 'a list" where
  "py_set xs = foldl (\<lambda>s x. List.insert x s) [] xs"

definition WallState_name :: "WallState \<Rightarrow> string" where
  "WallState_name s =
     (case s of INTACT \<Rightarrow> ''INTACT'' | CRACKED \<Rightarrow> ''CRACKED'' | FRACTURED \<Rightarrow> ''FRACTURED''
      | BREAKING \<Rightarrow> ''BREAKING'' | DESTROYED \<Rightarrow> ''DESTROYED'')"

text \<open>\<open>WallState[name]\<close> raises \<open>KeyError\<close> for a name that is no member.\<close>

definition WallState_of_name :: "string \<Rightarrow> py_error + WallState" where
  "WallState_of_name n =
     (if n = ''INTACT'' then Inr INTACT
      else if n = ''CRACKED'' then Inr CRACKED
      else if n = ''FRACTURED'' then Inr FRACTURED
      else if n = ''BREAKING'' then Inr BREAKING
      else if n = ''DESTROYED'' then Inr DESTROYED
      else Inl KeyError)"

definition debris_to_doc :: "debris \<Rightarrow> debris_doc" where
  "debris_to_doc d =
     \<lparr> dd_cx = cx d, dd_cy = cy d, dd_cz = cz d, dd_color = color d,
       dd_vx = vx d, dd_vy = vy d, dd_vz = vz d, dd_is_settled = Some (is_settled d) \<rparr>"

definition get_state_for_save :: "world \<Rightarrow> save_doc" where
  "get_state_for_save w =
     \<lparr> doc_seed = Some (world_seed w),
       doc_wall_cache = Some (dict_comp str_wall_key id (wall_cache w)),
       doc_pillar_cache = Some (dict_comp str_point id (pillar_cache w)),
       doc_destroyed_walls = Some (destroyed_walls w),
       doc_destroyed_pillars = Some (destroyed_pillars w),
       doc_destroyed_lamps = Some (destroyed_lamps w),
       doc_triggered_traps = Some (triggered_traps w),
       doc_wall_states = Some (dict_comp str_wall_key WallState_name (wall_states w)),
       doc_wall_health = Some (dict_comp str_wall_key id (wall_health w)),
       doc_wall_cracks = Some (dict_comp str_wall_key id (wall_cracks w)),
       doc_pre_damaged_walls = Some (dict_comp str_wall_key id (pre_damaged_walls w)),
       doc_debris_pieces = Some (take 1000 (map debris_to_doc (filter active (debris_pieces w)))) \<rparr>"

text \<open>The loops of \<open>load_state\<close> that fill a dictionary from the items of the document:
  each key string goes through \<open>eval\<close>, each value through a conversion; the first
  exception ends the loop, with the dictionary as filled so far, and so does the first
  string that \<open>eval\<close> runs as an expression of its own.\<close>

fun load_items :: "(string \<Rightarrow> stop + 'k) \<Rightarrow> ('a \<Rightarrow> py_error + 'v) \<Rightarrow> (string \<times> 'a) list
    \<Rightarrow> ('k \<times> 'v) list \<Rightarrow> (stop \<times> ('k \<times> 'v) list) + ('k \<times> 'v) list" where
  "load_items ev conv [] acc = Inr acc"
| "load_items ev conv ((k_str, v) # rest) acc =
     (case ev k_str of
        Inl a \<Rightarrow> Inl (a, acc)
      | Inr key \<Rightarrow>
          (case conv v of
             Inl e \<Rightarrow> Inl (Raises e, acc)
           | Inr v' \<Rightarrow> load_items ev conv rest (AList.update key v' acc)))"

definition opt_default :: "'a \<Rightarrow> 'a option \<Rightarrow> 'a" where
  "opt_default d x = (case x of Some v \<Rightarrow> v | None \<Rightarrow> d)"

definition debris_of_doc :: "externals \<Rightarrow> debris_doc \<Rightarrow> debris" where
  "debris_of_doc ext dd =
     (let velocity = (if \<not> opt_default False (dd_is_settled dd)
                      then Some (dd_vx dd, dd_vy dd, dd_vz dd) else None)
      in Debris_init ext (dd_cx dd, dd_cy dd, dd_cz dd) (dd_color dd) velocity)"

text \<open>\<open>load_state\<close>, statement by statement. \<open>wall_cache\<close>, \<open>pillar_cache\<close> and \<open>wall_states\<close>
  are emptied and then filled in place, so an exception leaves them partly filled;
  \<open>wall_health\<close>, \<open>wall_cracks\<close> and \<open>pre_damaged_walls\<close> are assigned a finished
  comprehension, so an exception leaves them as they were. The result \<open>Inl (Raises e, w')\<close>
  is the exception \<open>e\<close> leaving \<open>load_state\<close> with the object in the state \<open>w'\<close>; the result
  \<open>Inl (Executes, w')\<close> says that a key string of the document is run as an expression, \<open>w'\<close>
  being the object at the moment the string is handed to \<open>eval\<close>. What the call does from
  there on is not followed.\<close>

definition load_state :: "externals \<Rightarrow> world \<Rightarrow> save_doc \<Rightarrow> (stop \<times> world) + world" where
  "load_state ext w data =
     (let w1 = w\<lparr>world_seed := opt_default (world_seed w) (doc_seed data)\<rparr> in
      (case load_items (eval_wall_key ext) Inr (opt_default [] (doc_wall_cache data)) [] of
        Inl (e, part) \<Rightarrow> Inl (e, w1\<lparr>wall_cache := part\<rparr>)
      | Inr wc \<Rightarrow>
      (let w2 = w1\<lparr>wall_cache := wc\<rparr> in
      (case load_items (eval_pillar_key ext) Inr (opt_default [] (doc_pillar_cache data)) [] of
        Inl (e, part) \<Rightarrow> Inl (e, w2\<lparr>pillar_cache := part\<rparr>)
      | Inr pc \<Rightarrow>
      (let w3 = w2\<lparr>pillar_cache := pc,
                  destroyed_walls := py_set (opt_default [] (doc_destroyed_walls data)),
                  destroyed_pillars := py_set (opt_default [] (doc_destroyed_pillars data)),
                  destroyed_lamps := py_set (opt_default [] (doc_destroyed_lamps data)),
                  triggered_traps := py_set (opt_default [] (doc_triggered_traps data))\<rparr> in
      (case load_items (eval_wall_key ext) WallState_of_name (opt_default [] (doc_wall_states data)) [] of
        Inl (e, part) \<Rightarrow> Inl (e, w3\<lparr>wall_states := part\<rparr>)
      | Inr ws \<Rightarrow>
      (let w4 = w3\<lparr>wall_states := ws\<rparr> in
      (case load_items (eval_wall_key ext) Inr (opt_default [] (doc_wall_health data)) [] of
        Inl (e, part) \<Rightarrow> Inl (e, w4)
      | Inr wh \<Rightarrow>
      (let w5 = w4\<lparr>wall_health := wh\<rparr> in
      (case load_items (eval_wall_key ext) Inr (opt_default [] (doc_wall_cracks data)) [] of
        Inl (e, part) \<Rightarrow> Inl (e, w5)
      | Inr wcr \<Rightarrow>
      (let w6 = w5\<lparr>wall_cracks := wcr\<rparr> in
      (case load_items (eval_wall_key ext) Inr (opt_default [] (doc_pre_damaged_walls data)) [] of
        Inl (e, part) \<Rightarrow> Inl (e, w6)
      | Inr pd \<Rightarrow>
      Inr (w6\<lparr>pre_damaged_walls := pd,
              debris_pieces := map (debris_of_doc ext) (opt_default [] (doc_debris_pieces data)),
              zone_cache := []\<rparr>)))))))))))))"

subsection \<open>Zones, pillars and walls\<close>

text \<open>\<open>x // ZONE_SIZE\<close> on a float is the floor of the quotient and raises
  \<open>ZeroDivisionError\<close> for a zero divisor.\<close>

definition get_zone_at :: "config \<Rightarrow> rat \<Rightarrow> rat \<Rightarrow> py_error + (int \<times> int)" where
  "get_zone_at cfg x z =
     (if ZONE_SIZE cfg = 0 then Inl ZeroDivisionError
      else Inr (\<lfloor>x / of_int (ZONE_SIZE cfg)\<rfloor>, \<lfloor>z / of_int (ZONE_SIZE cfg)\<rfloor>))"

definition get_zone_properties :: "externals \<Rightarrow> world \<Rightarrow> int \<Rightarrow> int \<Rightarrow> zone_props \<times> world" where
  "get_zone_properties ext w zone_x zone_z =
     (case map_of (zone_cache w) (zone_x, zone_z) of
        Some props \<Rightarrow> (props, w)
      | None \<Rightarrow>
          let props = get_zone_properties_ext ext zone_x zone_z (world_seed w)
          in (props, w\<lparr>zone_cache := AList.update (zone_x, zone_z) props (zone_cache w)\<rparr>))"

text \<open>\<open>has_pillar_at\<close>. \<open>px % PILLAR_SPACING\<close> raises for a zero spacing; Python's \<open>%\<close> and
  \<open>//\<close> on integers round as \<open>mod\<close> and \<open>div\<close> on \<open>int\<close> do.\<close>

definition has_pillar_at :: "config \<Rightarrow> externals \<Rightarrow> world \<Rightarrow> int \<Rightarrow> int \<Rightarrow> bool result" where
  "has_pillar_at cfg ext w px pz =
     (let key = (px, pz) in
      case map_of (pillar_cache w) key of
        Some b \<Rightarrow> Inr (b, w)
      | None \<Rightarrow>
          if PILLAR_MODE cfg = ''none''
          then Inr (False, w\<lparr>pillar_cache := AList.update key False (pillar_cache w)\<rparr>)
          else if PILLAR_SPACING cfg = 0 then Inl (ZeroDivisionError, w)
          else
            let offset = PILLAR_SPACING cfg div 2;
                is_on_pillar_grid = (px mod PILLAR_SPACING cfg = offset \<and> pz mod PILLAR_SPACING cfg = offset)
            in if \<not> is_on_pillar_grid
               then Inr (False, w\<lparr>pillar_cache := AList.update key False (pillar_cache w)\<rparr>)
               else if PILLAR_MODE cfg = ''all''
               then Inr (True, w\<lparr>pillar_cache := AList.update key True (pillar_cache w)\<rparr>)
               else
                 let seed = py_hash ext (px, pz, world_seed w) mod 100000;
                     rng = Random ext seed;
                     probability =
                       (if PILLAR_MODE cfg = ''sparse'' then 10 / 100
                        else if PILLAR_MODE cfg = ''normal'' then 30 / 100
                        else if PILLAR_MODE cfg = ''dense'' then 60 / 100
                        else 0);
                     has_pillar = (rng 0 < probability)
                 in Inr (has_pillar, w\<lparr>pillar_cache := AList.update key has_pillar (pillar_cache w)\<rparr>))"

definition is_pillar_destroyed :: "world \<Rightarrow> pillar_key \<Rightarrow> bool" where
  "is_pillar_destroyed w pillar_key = (pillar_key \<in> set (destroyed_pillars w))"

text \<open>\<open>tuple(sorted([(x1, z1), (x2, z2)]))\<close>: tuples compare lexicographically, and the
  stable sort swaps the two points only when the second is strictly smaller.\<close>

definition point_less :: "point \<Rightarrow> point \<Rightarrow> bool" where
  "point_less p q = (fst p < fst q \<or> (fst p = fst q \<and> snd p < snd q))"

definition sorted_key :: "point \<Rightarrow> point \<Rightarrow> wall_key" where
  "sorted_key p q = (if point_less q p then (q, p) else (p, q))"

text \<open>The block of \<open>has_wall_between\<close> under \<open>if key not in self.pre_damaged_walls\<close>: the
  zone's decay chance, the roll, and for a damage below 0.2 the wall joins
  \<open>destroyed_walls\<close>.\<close>

definition roll_pre_damage :: "config \<Rightarrow> externals \<Rightarrow> world \<Rightarrow> wall_key \<Rightarrow> int \<Rightarrow> int \<Rightarrow> int \<Rightarrow> int
    \<Rightarrow> (py_error \<times> world) + world" where
  "roll_pre_damage cfg ext w key x1 z1 x2 z2 =
     (case get_zone_at cfg (of_int (x1 + x2) / 2) (of_int (z1 + z2) / 2) of
        Inl e \<Rightarrow> Inl (e, w)
      | Inr zone \<Rightarrow>
          let (props, w1) = get_zone_properties ext w (fst zone) (snd zone);
              decay_seed = x1 * 7919 + z1 * 6577 + x2 * 4993 + z2 * 3571 + world_seed w1 * 9973;
              rng = Random ext decay_seed
          in if rng 0 < decay_chance props then
               let damage = uniform 0 (5 / 10) (rng 1);
                   w2 = w1\<lparr>pre_damaged_walls := AList.update key damage (pre_damaged_walls w1)\<rparr>
               in if damage < 2 / 10
                  then Inr (w2\<lparr>destroyed_walls := List.insert key (destroyed_walls w2)\<rparr>)
                  else Inr w2
             else Inr w1)"

definition has_wall_between :: "config \<Rightarrow> externals \<Rightarrow> world \<Rightarrow> int \<Rightarrow> int \<Rightarrow> int \<Rightarrow> int \<Rightarrow> bool result" where
  "has_wall_between cfg ext w x1 z1 x2 z2 =
     (let key = sorted_key (x1, z1) (x2, z2) in
      case map_of (wall_cache w) key of
        Some b \<Rightarrow> Inr (b, w)
      | None \<Rightarrow>
          let is_horizontal = (z1 = z2); is_vertical = (x1 = x2)
          in if \<not> (is_horizontal \<or> is_vertical)
             then Inr (False, w\<lparr>wall_cache := AList.update key False (wall_cache w)\<rparr>)
             else
               (case (if map_of (pre_damaged_walls w) key = None
                      then roll_pre_damage cfg ext w key x1 z1 x2 z2 else Inr w) of
                  Inl err \<Rightarrow> Inl err
                | Inr w1 \<Rightarrow> Inr (True, w1\<lparr>wall_cache := AList.update key True (wall_cache w1)\<rparr>)))"

definition get_doorway_type :: "externals \<Rightarrow> world \<Rightarrow> int \<Rightarrow> int \<Rightarrow> int \<Rightarrow> int \<Rightarrow> string option" where
  "get_doorway_type ext w x1 z1 x2 z2 =
     (let is_horizontal = (z1 = z2);
          door_seed = (if is_horizontal
                       then z1 * 3571 + ((x1 + x2) div 2) * 2897 + world_seed w * 9973
                       else x1 * 3571 + ((z1 + z2) div 2) * 2897 + world_seed w * 9973);
          rng = Random ext door_seed;
          roll = rng 0
      in if roll < 3 / 10 then Some ''hallway''
         else if roll < 5 / 10 then Some ''doorway''
         else None)"

subsection \<open>Collision\<close>

text \<open>\<open>range(start, stop, step)\<close> for a step that is not zero.\<close>

definition py_range :: "int \<Rightarrow> int \<Rightarrow> int \<Rightarrow> int list" where
  "py_range start stop step =
     (if step > 0 then map (\<lambda>i. start + int i * step) [0..<nat ((stop - start + step - 1) div step)]
      else if step < 0 then map (\<lambda>i. start + int i * step) [0..<nat ((start - stop - step - 1) div (- step))]
      else [])"

text \<open>The test against one wall. The source has it twice, for the horizontal wall with
  \<open>x\<close> along the wall and \<open>z\<close> across, and for the vertical wall with the roles swapped;
  \<open>wall_start\<close> is the grid coordinate where the wall begins and \<open>wall_line\<close> the
  coordinate of the line it lies on.\<close>

definition opening_width_of :: "config \<Rightarrow> string option \<Rightarrow> rat" where
  "opening_width_of cfg opening_type =
     (if opening_type = Some ''hallway'' then HALLWAY_WIDTH cfg
      else if opening_type = Some ''doorway'' then 60
      else 0)"

definition wall_blocks :: "config \<Rightarrow> string option \<Rightarrow> rat \<Rightarrow> rat \<Rightarrow> int \<Rightarrow> int \<Rightarrow> bool" where
  "wall_blocks cfg opening_type along across wall_start wall_line =
     (let player_radius = 15;
          half_thick = WALL_THICKNESS cfg / 2;
          wall_end = wall_start + PILLAR_SPACING cfg;
          opening_width = opening_width_of cfg opening_type
      in if opening_width > 0 then
           let opening_start = of_int wall_start + (of_int (PILLAR_SPACING cfg) - opening_width) / 2;
               opening_end = opening_start + opening_width
           in \<bar>across - of_int wall_line\<bar> < half_thick + player_radius
              \<and> ((of_int wall_start \<le> along \<and> along \<le> opening_start - player_radius)
                 \<or> (opening_end + player_radius \<le> along \<and> along \<le> of_int wall_end))
         else
           of_int wall_start - player_radius \<le> along \<and> along \<le> of_int wall_end + player_radius
           \<and> \<bar>across - of_int wall_line\<bar> < half_thick + player_radius)"

definition pillar_blocks :: "config \<Rightarrow> rat \<Rightarrow> rat \<Rightarrow> int \<Rightarrow> int \<Rightarrow> bool" where
  "pillar_blocks cfg x z pillar_x pillar_z =
     (let player_radius = 15;
          pillar_min_x = of_int pillar_x;
          pillar_max_x = of_int pillar_x + PILLAR_SIZE cfg;
          pillar_min_z = of_int pillar_z;
          pillar_max_z = of_int pillar_z + PILLAR_SIZE cfg;
          closest_x = max pillar_min_x (min x pillar_max_x);
          closest_z = max pillar_min_z (min z pillar_max_z);
          dist_x = x - closest_x;
          dist_z = z - closest_z;
          dist_sq = dist_x * dist_x + dist_z * dist_z
      in dist_sq < player_radius * player_radius)"

text \<open>The body of the inner loop for one grid cell. The result \<open>True\<close> is \<open>return True\<close>;
  \<open>False\<close> passes to the next cell, either at the end of the body or through a
  \<open>continue\<close>, which leaves the rest of the body (the vertical wall and the pillar after a
  destroyed horizontal wall, the pillar after a destroyed vertical wall) unvisited.\<close>

definition check_cell :: "config \<Rightarrow> externals \<Rightarrow> rat \<Rightarrow> rat \<Rightarrow> world \<Rightarrow> int \<Rightarrow> int \<Rightarrow> bool result" where
  "check_cell cfg ext x z w px_grid pz_grid =
     (let S = PILLAR_SPACING cfg in
      case has_wall_between cfg ext w px_grid pz_grid (px_grid + S) pz_grid of
        Inl err \<Rightarrow> Inl err
      | Inr (hw, w1) \<Rightarrow>
          if hw \<and> sorted_key (px_grid, pz_grid) (px_grid + S, pz_grid) \<in> set (destroyed_walls w1)
          then Inr (False, w1)
          else if hw \<and> wall_blocks cfg (get_doorway_type ext w1 px_grid pz_grid (px_grid + S) pz_grid)
                          x z px_grid pz_grid
          then Inr (True, w1)
          else
            (case has_wall_between cfg ext w1 px_grid pz_grid px_grid (pz_grid + S) of
               Inl err \<Rightarrow> Inl err
             | Inr (vw, w2) \<Rightarrow>
                 if vw \<and> sorted_key (px_grid, pz_grid) (px_grid, pz_grid + S) \<in> set (destroyed_walls w2)
                 then Inr (False, w2)
                 else if vw \<and> wall_blocks cfg (get_doorway_type ext w2 px_grid pz_grid px_grid (pz_grid + S))
                                 z x pz_grid px_grid
                 then Inr (True, w2)
                 else
                   (let offset = S div 2;
                        pillar_x = px_grid + offset;
                        pillar_z = pz_grid + offset
                    in case has_pillar_at cfg ext w2 pillar_x pillar_z of
                         Inl err \<Rightarrow> Inl err
                       | Inr (hp, w3) \<Rightarrow>
                           Inr (hp \<and> (pillar_x, pillar_z) \<notin> set (destroyed_pillars w3)
                                  \<and> pillar_blocks cfg x z pillar_x pillar_z, w3))))"

fun scan_z :: "config \<Rightarrow> externals \<Rightarrow> rat \<Rightarrow> rat \<Rightarrow> int \<Rightarrow> int list \<Rightarrow> world \<Rightarrow> bool result" where
  "scan_z cfg ext x z px_grid [] w = Inr (False, w)"
| "scan_z cfg ext x z px_grid (pz_grid # rest) w =
     (case check_cell cfg ext x z w px_grid pz_grid of
        Inl err \<Rightarrow> Inl err
      | Inr (hit, w1) \<Rightarrow> if hit then Inr (True, w1) else scan_z cfg ext x z px_grid rest w1)"

fun scan_x :: "config \<Rightarrow> externals \<Rightarrow> rat \<Rightarrow> rat \<Rightarrow> int list \<Rightarrow> int list \<Rightarrow> world \<Rightarrow> bool result" where
  "scan_x cfg ext x z [] zs w = Inr (False, w)"
| "scan_x cfg ext x z (px_grid # rest) zs w =
     (case scan_z cfg ext x z px_grid zs w of
        Inl err \<Rightarrow> Inl err
      | Inr (hit, w1) \<Rightarrow> if hit then Inr (True, w1) else scan_x cfg ext x z rest zs w1)"

text \<open>\<open>check_collision\<close>. A position that is not finite is solid. The floor divisions by
  \<open>PILLAR_SPACING\<close> raise for a zero spacing.\<close>

definition check_collision :: "config \<Rightarrow> externals \<Rightarrow> world \<Rightarrow> pyfloat \<Rightarrow> pyfloat \<Rightarrow> bool result" where
  "check_collision cfg ext w xf zf =
     (case (xf, zf) of
        (Finite x, Finite z) \<Rightarrow>
          let S = PILLAR_SPACING cfg;
              check_range = S * 2
          in if S = 0 then Inl (ZeroDivisionError, w)
             else
               let min_grid_x = \<lfloor>(x - of_int check_range) / of_int S\<rfloor> * S;
                   max_grid_x = \<lfloor>(x + of_int check_range) / of_int S\<rfloor> * S;
                   min_grid_z = \<lfloor>(z - of_int check_range) / of_int S\<rfloor> * S;
                   max_grid_z = \<lfloor>(z + of_int check_range) / of_int S\<rfloor> * S
               in scan_x cfg ext x z (py_range min_grid_x (max_grid_x + S) S)
                    (py_range min_grid_z (max_grid_z + S) S) w
      | _ \<Rightarrow> Inr (True, w))"

text \<open>The world a call leaves behind, whether it returns or raises.\<close>

definition world_after :: "'a result \<Rightarrow> world" where
  "world_after r = (case r of Inl (e, w) \<Rightarrow> w | Inr (v, w) \<Rightarrow> w)"

text \<open>A wall is \<open>settled\<close> when \<open>wall_cache\<close> has an entry for it and it is not destroyed, and
  \<open>standing\<close> when that entry is \<open>True\<close>.\<close>

definition settled :: "world \<Rightarrow> wall_key \<Rightarrow> bool" where
  "settled w key \<longleftrightarrow> map_of (wall_cache w) key \<noteq> None \<and> key \<notin> set (destroyed_walls w)"

definition standing :: "world \<Rightarrow> wall_key \<Rightarrow> bool" where
  "standing w key \<longleftrightarrow> map_of (wall_cache w) key = Some True \<and> key \<notin> set (destroyed_walls w)"

text \<open>What a call of \<open>has_wall_between\<close> shows of the pre-damage of its wall: the value
  it returns (or the exception), the pre-damage stored for the key afterwards, and whether
  the key is destroyed afterwards.\<close>

definition pre_damage_outcome :: "config \<Rightarrow> externals \<Rightarrow> world \<Rightarrow> int \<Rightarrow> int \<Rightarrow> int \<Rightarrow> int
    \<Rightarrow> (py_error + bool) \<times> rat option \<times> bool" where
  "pre_damage_outcome cfg ext w x1 z1 x2 z2 =
     (let r = has_wall_between cfg ext w x1 z1 x2 z2;
          key = sorted_key (x1, z1) (x2, z2)
      in (map_sum fst fst r,
          map_of (pre_damaged_walls (world_after r)) key,
          key \<in> set (destroyed_walls (world_after r))))"

text \<open>A cell none of whose three tests fires at the position \<open>(x, z)\<close>.\<close>

definition cell_free :: "config \<Rightarrow> externals \<Rightarrow> world \<Rightarrow> rat \<Rightarrow> rat \<Rightarrow> int \<Rightarrow> int \<Rightarrow> bool" where
  "cell_free cfg ext w x z gx gz \<longleftrightarrow>
       \<not> wall_blocks cfg (get_doorway_type ext w gx gz (gx + PILLAR_SPACING cfg) gz) x z gx gz
     \<and> \<not> wall_blocks cfg (get_doorway_type ext w gx gz gx (gz + PILLAR_SPACING cfg)) z x gz gx
     \<and> \<not> pillar_blocks cfg x z (gx + PILLAR_SPACING cfg div 2) (gz + PILLAR_SPACING cfg div 2)"

text \<open>What a query may do to the world: the damage maps, the debris and the seed are
  untouched, the caches and \<open>pre_damaged_walls\<close> keep every entry they had, and
  \<open>destroyed_walls\<close> only gains walls that were not in \<open>wall_cache\<close> before and now carry a
  pre-damage below 0.2.\<close>

definition first_discovery :: "world \<Rightarrow> world \<Rightarrow> bool" where
  "first_discovery w w' \<longleftrightarrow>
       wall_health w' = wall_health w \<and> wall_states w' = wall_states w
     \<and> wall_cracks w' = wall_cracks w \<and> debris_pieces w' = debris_pieces w
     \<and> world_seed w' = world_seed w \<and> destroyed_pillars w' = destroyed_pillars w
     \<and> destroyed_lamps w' = destroyed_lamps w \<and> triggered_traps w' = triggered_traps w
     \<and> spawned_rubble w' = spawned_rubble w
     \<and> map_of (wall_cache w) \<subseteq>\<^sub>m map_of (wall_cache w')
     \<and> map_of (pillar_cache w) \<subseteq>\<^sub>m map_of (pillar_cache w')
     \<and> map_of (zone_cache w) \<subseteq>\<^sub>m map_of (zone_cache w')
     \<and> map_of (pre_damaged_walls w) \<subseteq>\<^sub>m map_of (pre_damaged_walls w')
     \<and> set (destroyed_walls w) \<subseteq> set (destroyed_walls w')
     \<and> (\<forall>k \<in> set (destroyed_walls w') - set (destroyed_walls w).
           map_of (wall_cache w) k = None
           \<and> (\<exists>d. map_of (pre_damaged_walls w') k = Some d \<and> d < 2 / 10))"

subsection \<open>Example values\<close>

text \<open>A configuration, a set of collaborators, a generator and a few worlds, used to run
  the definitions on concrete inputs. The configuration is an example, not the contents of
  \<open>config.py\<close>.\<close>

definition example_config :: config where
  "example_config =
     \<lparr> PILLAR_SPACING = 400, PILLAR_SIZE = 80, PILLAR_MODE = ''normal'',
       WALL_THICKNESS = 20, ZONE_SIZE = 1200, HALLWAY_WIDTH = 120,
       WALL_COLOR = (200, 180, 160), PILLAR_COLOR = (180, 170, 150),
       get_scaled_wall_height = 100, get_scaled_floor_y = 0 \<rparr>"

definition example_Debris_init :: "rat \<times> rat \<times> rat \<Rightarrow> rgb \<Rightarrow> (rat \<times> rat \<times> rat) option \<Rightarrow> debris" where
  "example_Debris_init pos col velocity =
     \<lparr> cx = fst pos, cy = fst (snd pos), cz = snd (snd pos), color = col,
       vx = (case velocity of Some v \<Rightarrow> fst v | None \<Rightarrow> 0),
       vy = (case velocity of Some v \<Rightarrow> fst (snd v) | None \<Rightarrow> 0),
       vz = (case velocity of Some v \<Rightarrow> snd (snd v) | None \<Rightarrow> 0),
       is_settled = (velocity = None), active = True \<rparr>"

text \<open>Of \<open>eval\<close> the example collaborators say this much: the text \<open>(1, 2\<close>, a tuple cut short,
  does not compile; every other string that is no key literal is taken to be run.\<close>

definition example_externals :: externals where
  "example_externals =
     \<lparr> py_hash = (\<lambda>(a, b, c). a * 31 + b * 17 + c),
       Random = (\<lambda>seed i. of_int ((seed div 100 + seed div 40000 + 3 * int i) mod 10) / 10),
       get_zone_properties_ext = (\<lambda>zx zz seed. \<lparr> decay_chance = 1 / 20 \<rparr>),
       Debris_init = example_Debris_init,
       Debris_update = (\<lambda>dt floor_y d. d\<lparr>cx := cx d + vx d * dt, cz := cz d + vz d * dt\<rparr>),
       eval_other = (\<lambda>s. if s = ''(1, 2'' then Inl (Raises SyntaxError) else Inl Executes),
       eval_other_pillar = (\<lambda>s. if s = ''(1, 2'' then Inl (Raises SyntaxError) else Inl Executes) \<rparr>"

definition example_rand :: rand where
  "example_rand = (\<lambda>i. of_nat (i mod 8) / 8)"

definition example_key :: wall_key where
  "example_key = ((0, 0), (400, 0))"

definition example_world :: world where
  "example_world = World_init (Some 7) example_rand"

text \<open>A world with some damage in it: one wall destroyed, one cracked, one pillar
  destroyed.\<close>

definition example_damaged_world :: world where
  "example_damaged_world =
     example_world
       \<lparr> pillar_cache := [((200, 200), True), ((600, 200), False)],
         wall_cache := [(((0, 0), (400, 0)), True), (((0, 0), (0, 400)), True)],
         zone_cache := [((0, 0), \<lparr> decay_chance = 1 / 20 \<rparr>)],
         destroyed_walls := [((0, 0), (0, 400))],
         destroyed_pillars := [(200, 200)],
         pre_damaged_walls := [(((0, 0), (400, 0)), 2 / 5)],
         wall_states := [(((0, 0), (400, 0)), CRACKED), (((0, 0), (0, 400)), DESTROYED)],
         wall_health := [(((0, 0), (400, 0)), 1 / 2), (((0, 0), (0, 400)), 0)],
         wall_cracks := [(((0, 0), (400, 0)), [(1 / 2, 1 / 2, 1, 1 / 5)])] \<rparr>"

text \<open>A world in which the two walls of the cell at \<open>(-400, 0)\<close> are discovered: under
  \<open>example_externals\<close> and seed 7 the horizontal one has a hallway, the vertical one has no
  opening.\<close>

definition example_hall_world :: world where
  "example_hall_world =
     example_world
       \<lparr> wall_cache := [(((-400, 0), (0, 0)), True), (((-400, 0), (-400, 400)), True)] \<rparr>"

text \<open>A world holding 1001 active particles, the \<open>i\<close>-th appended one at \<open>cx = i\<close>.\<close>

definition example_particle :: "nat \<Rightarrow> debris" where
  "example_particle i = example_Debris_init (of_nat i, 0, 0) (200, 180, 160) None"

definition example_full_world :: world where
  "example_full_world = example_world\<lparr>debris_pieces := map example_particle [0..<1001]\<rparr>"

text \<open>A world with three particles: one near the player, one far away, one inactive.\<close>

definition example_debris_world :: world where
  "example_debris_world =
     example_world\<lparr>debris_pieces :=
       [example_particle 5, example_particle 2000, (example_particle 6)\<lparr>active := False\<rparr>]\<rparr>"



section \<open>Properties\<close>

subsection \<open>Frame lemmas of the damage functions\<close>

lemma add_crack_frame:
  "wall_health (fst (add_crack rnd w k hu hv)) = wall_health w"
  "wall_states (fst (add_crack rnd w k hu hv)) = wall_states w"
  "destroyed_walls (fst (add_crack rnd w k hu hv)) = destroyed_walls w"
  "debris_pieces (fst (add_crack rnd w k hu hv)) = debris_pieces w"
  by (simp_all add: add_crack_def Let_def split: option.splits prod.splits)

lemma spawn_loop_frame:
  "wall_health (spawn_loop cfg ext k n rnd w) = wall_health w"
  "wall_states (spawn_loop cfg ext k n rnd w) = wall_states w"
  "destroyed_walls (spawn_loop cfg ext k n rnd w) = destroyed_walls w"
  "wall_cracks (spawn_loop cfg ext k n rnd w) = wall_cracks w"
  by (induction n arbitrary: rnd w; simp)+

lemma spawn_loop_debris:
  "\<exists>ds. length ds = n \<and> debris_pieces (spawn_loop cfg ext k n rnd w) = debris_pieces w @ ds"
proof (induction n arbitrary: rnd w)
  case 0
  then show ?case by simp
next
  case (Suc n)
  from Suc.IH [of "advance 7 rnd" "w\<lparr>debris_pieces := debris_pieces w @ [wall_particle cfg ext rnd k]\<rparr>"]
  obtain ds where "length ds = n"
    "debris_pieces (spawn_loop cfg ext k (Suc n) rnd w) = debris_pieces w @ wall_particle cfg ext rnd k # ds"
    by auto
  then show ?case
    by (intro exI [of _ "wall_particle cfg ext rnd k # ds"]) simp
qed

lemma spawn_wall_debris_frame:
  "wall_health (spawn_wall_debris cfg ext rnd w k) = wall_health w"
  "wall_states (spawn_wall_debris cfg ext rnd w k) = wall_states w"
  "destroyed_walls (spawn_wall_debris cfg ext rnd w k) = destroyed_walls w"
  "wall_cracks (spawn_wall_debris cfg ext rnd w k) = wall_cracks w"
  by (simp_all add: spawn_wall_debris_def spawn_loop_frame)

lemma spawn_wall_debris_appends:
  "\<exists>ds. length ds = 150 \<and> debris_pieces (spawn_wall_debris cfg ext rnd w k) = debris_pieces w @ ds"
  unfolding spawn_wall_debris_def by (rule spawn_loop_debris)

subsection \<open>The damage ladder\<close>

lemma hit_wall_fresh:
  assumes "k \<notin> set (destroyed_walls w)" "map_of (wall_health w) k = None"
  shows "\<exists>w1. hit_wall cfg ext r w k (1/4) = Inr (False, w1) \<and> map_of (wall_health w1) k = Some (3/4)
     \<and> map_of (wall_states w1) k = Some INTACT \<and> destroyed_walls w1 = destroyed_walls w
     \<and> debris_pieces w1 = debris_pieces w"
  using assms by (simp add: hit_wall_def Let_def update_conv')

lemma hit_wall_crack:
  assumes "k \<notin> set (destroyed_walls w)" "map_of (wall_health w) k = Some (3/4)"
    "map_of (wall_states w) k = Some INTACT"
  shows "\<exists>w1. hit_wall cfg ext r w k (1/4) = Inr (False, w1) \<and> map_of (wall_health w1) k = Some (1/2)
     \<and> map_of (wall_states w1) k = Some CRACKED \<and> destroyed_walls w1 = destroyed_walls w
     \<and> debris_pieces w1 = debris_pieces w"
  using assms
  by (simp add: hit_wall_def Let_def update_conv' split_beta add_crack_frame)

lemma hit_wall_fracture:
  assumes "k \<notin> set (destroyed_walls w)" "map_of (wall_health w) k = Some (1/2)"
    "map_of (wall_states w) k = Some CRACKED"
  shows "\<exists>w1. hit_wall cfg ext r w k (1/4) = Inr (False, w1) \<and> map_of (wall_health w1) k = Some (1/4)
     \<and> map_of (wall_states w1) k = Some FRACTURED \<and> destroyed_walls w1 = destroyed_walls w
     \<and> debris_pieces w1 = debris_pieces w"
  using assms
  by (simp add: hit_wall_def Let_def update_conv' split_beta add_crack_frame)

lemma hit_wall_destroy:
  assumes "k \<notin> set (destroyed_walls w)" "map_of (wall_health w) k = Some (1/4)"
  shows "\<exists>w1 ds. hit_wall cfg ext r w k (1/4) = Inr (True, w1) \<and> map_of (wall_health w1) k = Some 0
     \<and> map_of (wall_states w1) k = Some DESTROYED \<and> k \<in> set (destroyed_walls w1)
     \<and> debris_pieces w1 = debris_pieces w @ ds \<and> length ds = 150"
proof -
  let ?w2 = "w\<lparr>wall_health := AList.update k 0 (wall_health w)\<rparr>"
  let ?w3 = "?w2\<lparr>destroyed_walls := List.insert k (destroyed_walls ?w2),
                  wall_states := AList.update k DESTROYED (wall_states ?w2)\<rparr>"
  obtain ds where ds: "length ds = 150"
    "debris_pieces (spawn_wall_debris cfg ext r ?w3 k) = debris_pieces ?w3 @ ds"
    using spawn_wall_debris_appends by blast
  have "hit_wall cfg ext r w k (1/4) = Inr (True, spawn_wall_debris cfg ext r ?w3 k)"
    using assms by (simp add: hit_wall_def Let_def)
  with ds show ?thesis
    by (simp add: spawn_wall_debris_frame update_conv')
qed

lemma hit_wall_destroyed_noop:
  "k \<in> set (destroyed_walls w) \<Longrightarrow> hit_wall cfg ext r w k d = Inr (False, w)"
  by (simp add: hit_wall_def)

text \<open>
  \<^bold>\<open>C3.\<close> From a wall key that is neither destroyed nor in \<open>wall_health\<close>, four calls
  \<open>hit_wall(key, 0.25)\<close> give health 0.75 and state INTACT, then 0.50 and CRACKED, then 0.25
  and FRACTURED, all three returning false, and then health 0.00 with the key in
  \<open>destroyed_walls\<close>, state DESTROYED and 150 debris particles appended, returning true.
  Every later \<open>hit_wall\<close> on the key returns false and leaves the world as it is. The
  draws of the generator (\<open>r1\<close> to \<open>r4\<close>) do not matter.
\<close>

theorem hit_wall_quarter_ladder:
  assumes "k \<notin> set (destroyed_walls w0)" and "map_of (wall_health w0) k = None"
  shows "\<exists>w1 w2 w3 w4.
      hit_wall cfg ext r1 w0 k (1/4) = Inr (False, w1)
    \<and> get_wall_health w1 k = 3/4 \<and> get_wall_state w1 k = INTACT
    \<and> hit_wall cfg ext r2 w1 k (1/4) = Inr (False, w2)
    \<and> get_wall_health w2 k = 1/2 \<and> get_wall_state w2 k = CRACKED
    \<and> hit_wall cfg ext r3 w2 k (1/4) = Inr (False, w3)
    \<and> get_wall_health w3 k = 1/4 \<and> get_wall_state w3 k = FRACTURED
    \<and> hit_wall cfg ext r4 w3 k (1/4) = Inr (True, w4)
    \<and> map_of (wall_health w4) k = Some 0 \<and> k \<in> set (destroyed_walls w4)
    \<and> map_of (wall_states w4) k = Some DESTROYED \<and> get_wall_state w4 k = DESTROYED
    \<and> length (debris_pieces w4) = length (debris_pieces w0) + 150
    \<and> (\<forall>r d. hit_wall cfg ext r w4 k d = Inr (False, w4))"
proof -
  obtain w1 where 1: "hit_wall cfg ext r1 w0 k (1/4) = Inr (False, w1)"
    "map_of (wall_health w1) k = Some (3/4)" "map_of (wall_states w1) k = Some INTACT"
    "destroyed_walls w1 = destroyed_walls w0" "debris_pieces w1 = debris_pieces w0"
    using hit_wall_fresh [OF assms] by blast
  have n1: "k \<notin> set (destroyed_walls w1)" using 1 assms by simp
  obtain w2 where 2: "hit_wall cfg ext r2 w1 k (1/4) = Inr (False, w2)"
    "map_of (wall_health w2) k = Some (1/2)" "map_of (wall_states w2) k = Some CRACKED"
    "destroyed_walls w2 = destroyed_walls w1" "debris_pieces w2 = debris_pieces w1"
    using hit_wall_crack [OF n1 1(2,3)] by blast
  have n2: "k \<notin> set (destroyed_walls w2)" using 2 n1 by simp
  obtain w3 where 3: "hit_wall cfg ext r3 w2 k (1/4) = Inr (False, w3)"
    "map_of (wall_health w3) k = Some (1/4)" "map_of (wall_states w3) k = Some FRACTURED"
    "destroyed_walls w3 = destroyed_walls w2" "debris_pieces w3 = debris_pieces w2"
    using hit_wall_fracture [OF n2 2(2,3)] by blast
  have n3: "k \<notin> set (destroyed_walls w3)" using 3 n2 by simp
  obtain w4 ds where 4: "hit_wall cfg ext r4 w3 k (1/4) = Inr (True, w4)"
    "map_of (wall_health w4) k = Some 0" "map_of (wall_states w4) k = Some DESTROYED"
    "k \<in> set (destroyed_walls w4)" "debris_pieces w4 = debris_pieces w3 @ ds" "length ds = 150"
    using hit_wall_destroy [OF n3 3(2)] by blast
  have h1: "get_wall_health w1 k = 3/4 \<and> get_wall_state w1 k = INTACT"
    using 1 n1 by (simp add: get_wall_health_def get_wall_state_def)
  have h2: "get_wall_health w2 k = 1/2 \<and> get_wall_state w2 k = CRACKED"
    using 2 n2 by (simp add: get_wall_health_def get_wall_state_def)
  have h3: "get_wall_health w3 k = 1/4 \<and> get_wall_state w3 k = FRACTURED"
    using 3 n3 by (simp add: get_wall_health_def get_wall_state_def)
  have h4: "get_wall_state w4 k = DESTROYED"
    using 4 by (simp add: get_wall_state_def)
  have len: "length (debris_pieces w4) = length (debris_pieces w0) + 150"
    using 1 2 3 4 by simp
  have noop: "\<forall>r d. hit_wall cfg ext r w4 k d = Inr (False, w4)"
    using 4(4) by (simp add: hit_wall_destroyed_noop)
  from 1(1) 2(1) 3(1) 4(1,2,3,4) h1 h2 h3 h4 len noop show ?thesis
    by blast
qed

theorem hit_wall_quarter_ladder_witness:
  "example_key \<notin> set (destroyed_walls example_world)
   \<and> map_of (wall_health example_world) example_key = None
   \<and> (\<exists>w1 w2 w3 w4.
        hit_wall example_config example_externals example_rand example_world example_key (1/4) = Inr (False, w1)
      \<and> get_wall_health w1 example_key = 3/4 \<and> get_wall_state w1 example_key = INTACT
      \<and> hit_wall example_config example_externals example_rand w1 example_key (1/4) = Inr (False, w2)
      \<and> get_wall_health w2 example_key = 1/2 \<and> get_wall_state w2 example_key = CRACKED
      \<and> hit_wall example_config example_externals example_rand w2 example_key (1/4) = Inr (False, w3)
      \<and> get_wall_health w3 example_key = 1/4 \<and> get_wall_state w3 example_key = FRACTURED
      \<and> hit_wall example_config example_externals example_rand w3 example_key (1/4) = Inr (True, w4)
      \<and> example_key \<in> set (destroyed_walls w4) \<and> get_wall_state w4 example_key = DESTROYED
      \<and> length (debris_pieces w4) = 150)"
proof -
  have a: "example_key \<notin> set (destroyed_walls example_world)"
    by (simp add: example_world_def World_init_def)
  have b: "map_of (wall_health example_world) example_key = None"
    by (simp add: example_world_def World_init_def)
  have c: "length (debris_pieces example_world) = 0"
    by (simp add: example_world_def World_init_def)
  from hit_wall_quarter_ladder [OF a b, of example_config example_externals
      example_rand example_rand example_rand example_rand] c
  show ?thesis using a b by fastforce
qed

subsection \<open>Destroyed membership\<close>

lemma hit_wall_True_destroys:
  assumes "hit_wall cfg ext rnd w k damage = Inr (True, w')"
  shows "k \<in> set (destroyed_walls w')"
  using assms
  by (auto simp: hit_wall_def Let_def spawn_wall_debris_frame split_beta split: if_splits option.splits)

lemma destroy_wall_destroys:
  "k \<in> set (destroyed_walls (destroy_wall cfg ext rnd w k))"
  by (simp add: destroy_wall_def spawn_wall_debris_frame)

text \<open>
  \<^bold>\<open>C4.\<close> For a wall key in \<open>destroyed_walls\<close>, \<open>get_wall_health\<close> is 0 and \<open>get_wall_state\<close> is
  DESTROYED, whatever \<open>wall_health\<close> and \<open>wall_states\<close> hold. The world is arbitrary, so this
  holds in particular for the world any call leaves; right after \<open>destroy_wall\<close> returns,
  and right after a \<open>hit_wall\<close> that returns true, the key is a member and reads so.
\<close>

theorem destroyed_membership_overrides_maps:
  "(k \<in> set (destroyed_walls w) \<longrightarrow> get_wall_health w k = 0 \<and> get_wall_state w k = DESTROYED)
   \<and> (k2 \<in> set (destroyed_walls (destroy_wall cfg ext rnd w k2))
      \<and> get_wall_health (destroy_wall cfg ext rnd w k2) k2 = 0
      \<and> get_wall_state (destroy_wall cfg ext rnd w k2) k2 = DESTROYED)
   \<and> (hit_wall cfg ext rnd w k3 damage = Inr (True, w') \<longrightarrow>
        k3 \<in> set (destroyed_walls w') \<and> get_wall_health w' k3 = 0 \<and> get_wall_state w' k3 = DESTROYED)"
proof -
  have reads: "get_wall_health v q = 0 \<and> get_wall_state v q = DESTROYED"
    if "q \<in> set (destroyed_walls v)" for v q
    using that by (simp add: get_wall_health_def get_wall_state_def)
  show ?thesis
    using reads destroy_wall_destroys hit_wall_True_destroys by blast
qed

theorem destroyed_membership_overrides_maps_witness:
  "((0, 0), (0, 400)) \<in> set (destroyed_walls example_damaged_world)
   \<and> get_wall_health example_damaged_world ((0, 0), (0, 400)) = 0
   \<and> get_wall_state example_damaged_world ((0, 0), (0, 400)) = DESTROYED
   \<and> (\<exists>w'. hit_wall example_config example_externals example_rand example_damaged_world example_key (1/2)
             = Inr (True, w')
          \<and> example_key \<in> set (destroyed_walls w') \<and> get_wall_health w' example_key = 0
          \<and> get_wall_state w' example_key = DESTROYED)"
proof -
  have a: "((0, 0), (0, 400)) \<in> set (destroyed_walls example_damaged_world)"
    by (simp add: example_damaged_world_def)
  have "\<exists>w'. hit_wall example_config example_externals example_rand example_damaged_world example_key (1/2)
             = Inr (True, w')"
    by (simp add: hit_wall_def example_damaged_world_def example_key_def Let_def)
  then obtain w' where b:
    "hit_wall example_config example_externals example_rand example_damaged_world example_key (1/2)
       = Inr (True, w')" ..
  from destroyed_membership_overrides_maps
    [of "((0, 0), (0, 400))" example_damaged_world example_key example_config example_externals
        example_rand example_key "1/2" w'] a b
  show ?thesis by blast
qed

subsection \<open>Strings\<close>

lemma of_char_digit: "d < 10 \<Longrightarrow> (of_char (digit_char d) :: nat) = 48 + d"
  by (simp add: digit_char_def)

lemma is_digit_digit_char: "d < 10 \<Longrightarrow> is_digit (digit_char d)"
  by (simp add: is_digit_def of_char_digit)

lemma digit_val_digit_char: "d < 10 \<Longrightarrow> digit_val (digit_char d) = d"
  by (simp add: digit_val_def of_char_digit)

lemma str_nat_digits: "\<forall>c \<in> set (str_nat n). is_digit c"
  by (induction n rule: str_nat.induct) (subst str_nat.simps, simp add: is_digit_digit_char)

lemma str_nat_nonempty: "str_nat n \<noteq> []"
  by (subst str_nat.simps) simp

lemma str_nat_value: "foldl (\<lambda>a c. 10 * a + digit_val c) 0 (str_nat n) = n"
  by (induction n rule: str_nat.induct) (subst str_nat.simps, simp add: digit_val_digit_char)

lemma takeWhile_stops: "stops rest \<Longrightarrow> takeWhile is_digit rest = []"
  by (cases rest) (simp_all add: stops_def)

lemma dropWhile_stops: "stops rest \<Longrightarrow> dropWhile is_digit rest = rest"
  by (cases rest) (simp_all add: stops_def)

lemma read_nat_str_nat:
  assumes "stops rest"
  shows "read_nat (str_nat n @ rest) = Some (n, rest)"
proof -
  have t: "takeWhile is_digit (str_nat n @ rest) = str_nat n"
    using str_nat_digits [of n] assms by (simp add: takeWhile_stops)
  have d: "dropWhile is_digit (str_nat n @ rest) = rest"
    using str_nat_digits [of n] assms by (simp add: dropWhile_stops)
  show ?thesis
    by (simp add: read_nat_def t d str_nat_nonempty str_nat_value)
qed

lemma str_nat_hd: "\<exists>c r. str_nat n = c # r \<and> is_digit c"
  using str_nat_digits [of n] str_nat_nonempty [of n] by (cases "str_nat n") auto

lemma minus_not_digit: "\<not> is_digit CHR ''-''"
  by (simp add: is_digit_def)

lemma read_int_str_int:
  assumes "stops rest"
  shows "read_int (str_int i @ rest) = Some (i, rest)"
proof (cases "i < 0")
  case True
  then show ?thesis
    using read_nat_str_nat [OF assms, of "nat (- i)"] by (simp add: read_int_def str_int_def)
next
  case False
  obtain c r where cr: "str_nat (nat i) = c # r" "is_digit c"
    using str_nat_hd by blast
  then have "c \<noteq> CHR ''-''" using minus_not_digit by auto
  with False cr show ?thesis
    using read_nat_str_nat [OF assms, of "nat i"] by (simp add: read_int_def str_int_def)
qed

lemma stops_comma: "stops (CHR '','' # r)" and stops_paren: "stops (CHR '')'' # r)"
  by (simp_all add: stops_def is_digit_def)

lemma read_point_str_point: "read_point (str_point p @ rest) = Some (p, rest)"
proof -
  obtain x z where p: "p = (x, z)" by (cases p)
  have 1: "read_int (str_int x @ CHR '','' # CHR '' '' # str_int z @ CHR '')'' # rest)
           = Some (x, CHR '','' # CHR '' '' # str_int z @ CHR '')'' # rest)"
    by (rule read_int_str_int) (rule stops_comma)
  have 2: "read_int (str_int z @ CHR '')'' # rest) = Some (z, CHR '')'' # rest)"
    by (rule read_int_str_int) (rule stops_paren)
  show ?thesis
    by (simp add: p read_point_def str_point_def expect_def 1 2)
qed

lemma read_wall_key_str: "read_wall_key (str_wall_key k @ rest) = Some (k, rest)"
proof -
  obtain p q where k: "k = (p, q)" by (cases k)
  have 1: "read_point (str_point p @ CHR '','' # CHR '' '' # str_point q @ CHR '')'' # rest)
           = Some (p, CHR '','' # CHR '' '' # str_point q @ CHR '')'' # rest)"
    by (rule read_point_str_point)
  have 2: "read_point (str_point q @ CHR '')'' # rest) = Some (q, CHR '')'' # rest)"
    by (rule read_point_str_point)
  show ?thesis
    by (simp add: k read_wall_key_def str_wall_key_def expect_def 1 2)
qed

lemma literal_wall_key_str: "literal_wall_key (str_wall_key k) = Some k"
  using read_wall_key_str [of k "[]"] by (simp add: literal_wall_key_def)

lemma literal_pillar_key_str: "literal_pillar_key (str_point k) = Some k"
  using read_point_str_point [of k "[]"] by (simp add: literal_pillar_key_def)

lemma eval_wall_key_str: "eval_wall_key ext (str_wall_key k) = Inr k"
  by (simp add: eval_wall_key_def literal_wall_key_str)

lemma eval_pillar_key_str: "eval_pillar_key ext (str_point k) = Inr k"
  by (simp add: eval_pillar_key_def literal_pillar_key_str)

lemma inj_str_wall_key: "inj str_wall_key"
  by (rule inj_on_inverseI [where g = "\<lambda>s. the (literal_wall_key s)"]) (simp add: literal_wall_key_str)

lemma inj_str_point: "inj str_point"
  by (rule inj_on_inverseI [where g = "\<lambda>s. the (literal_pillar_key s)"]) (simp add: literal_pillar_key_str)

subsection \<open>Dictionaries\<close>

lemma update_fresh: "k \<notin> fst ` set al \<Longrightarrow> AList.update k v al = al @ [(k, v)]"
  by (induction al) auto

lemma foldl_update_distinct:
  assumes "inj f" "distinct (map fst xs)" "f ` fst ` set xs \<inter> fst ` set acc = {}"
  shows "foldl (\<lambda>acc (k, v). AList.update (f k) (g v) acc) acc xs = acc @ map (\<lambda>(k, v). (f k, g v)) xs"
  using assms(2,3)
proof (induction xs arbitrary: acc)
  case Nil
  then show ?case by simp
next
  case (Cons a xs)
  obtain k v where a: "a = (k, v)" by (cases a)
  have fresh: "f k \<notin> fst ` set acc" using Cons.prems a by auto
  have "f ` fst ` set xs \<inter> fst ` set (acc @ [(f k, g v)]) = {}"
    using Cons.prems a assms(1) by (auto simp: inj_eq image_iff)
  with Cons.IH [of "acc @ [(f k, g v)]"] Cons.prems
  show ?case by (simp add: a update_fresh [OF fresh])
qed

lemma dict_comp_distinct:
  "inj f \<Longrightarrow> distinct (map fst xs) \<Longrightarrow> dict_comp f g xs = map (\<lambda>(k, v). (f k, g v)) xs"
  using foldl_update_distinct [of f xs "[]" g] by (simp add: dict_comp_def)

lemma load_items_roundtrip:
  assumes "\<And>k. ev (f k) = Inr k" "\<And>v. conv (g v) = Inr v"
    "distinct (map fst xs)" "fst ` set xs \<inter> fst ` set acc = {}"
  shows "load_items ev conv (map (\<lambda>(k, v). (f k, g v)) xs) acc = Inr (acc @ xs)"
  using assms(3,4)
proof (induction xs arbitrary: acc)
  case Nil
  then show ?case by simp
next
  case (Cons a xs)
  obtain k v where a: "a = (k, v)" by (cases a)
  have fresh: "k \<notin> fst ` set acc" using Cons.prems a by auto
  have "fst ` set xs \<inter> fst ` set (acc @ [(k, v)]) = {}"
    using Cons.prems a by (auto simp: image_iff)
  with Cons.IH [of "acc @ [(k, v)]"] Cons.prems
  show ?case by (simp add: a assms(1,2) update_fresh [OF fresh])
qed

lemma save_then_load_items:
  assumes "\<And>k. ev (f k) = Inr k" "\<And>v. conv (g v) = Inr v" "inj f" "distinct (map fst xs)"
  shows "load_items ev conv (dict_comp f g xs) [] = Inr xs"
  using load_items_roundtrip [of ev f conv g xs "[]"] assms
  by (simp add: dict_comp_distinct)

lemma set_py_set: "set (py_set xs) = set xs"
proof -
  have "set (foldl (\<lambda>s x. List.insert x s) acc xs) = set acc \<union> set xs" for acc
    by (induction xs arbitrary: acc) auto
  then show ?thesis by (simp add: py_set_def)
qed

lemma WallState_name_roundtrip: "WallState_of_name (WallState_name s) = Inr s"
  by (cases s) (simp_all add: WallState_name_def WallState_of_name_def)

subsection \<open>Save and load round trip\<close>

lemma load_after_save:
  assumes "distinct (map fst (wall_cache w))" "distinct (map fst (pillar_cache w))"
    "distinct (map fst (wall_states w))" "distinct (map fst (wall_health w))"
    "distinct (map fst (wall_cracks w))" "distinct (map fst (pre_damaged_walls w))"
  shows "load_state ext w0 (get_state_for_save w) =
     Inr (w0\<lparr> world_seed := world_seed w, wall_cache := wall_cache w,
              pillar_cache := pillar_cache w,
              destroyed_walls := py_set (destroyed_walls w),
              destroyed_pillars := py_set (destroyed_pillars w),
              destroyed_lamps := py_set (destroyed_lamps w),
              triggered_traps := py_set (triggered_traps w),
              wall_states := wall_states w, wall_health := wall_health w,
              wall_cracks := wall_cracks w, pre_damaged_walls := pre_damaged_walls w,
              debris_pieces := map (debris_of_doc ext)
                 (take 1000 (map debris_to_doc (filter active (debris_pieces w)))),
              zone_cache := [] \<rparr>)"
proof -
  have id_conv: "\<And>v. Inr (id v) = (Inr v :: py_error + 'x)" by simp
  have wc: "load_items (eval_wall_key ext) Inr (dict_comp str_wall_key id (wall_cache w)) [] = Inr (wall_cache w)"
    by (rule save_then_load_items) (simp_all add: eval_wall_key_str inj_str_wall_key assms)
  have pc: "load_items (eval_pillar_key ext) Inr (dict_comp str_point id (pillar_cache w)) [] = Inr (pillar_cache w)"
    by (rule save_then_load_items) (simp_all add: eval_pillar_key_str inj_str_point assms)
  have ws: "load_items (eval_wall_key ext) WallState_of_name
              (dict_comp str_wall_key WallState_name (wall_states w)) [] = Inr (wall_states w)"
    by (rule save_then_load_items)
       (simp_all add: eval_wall_key_str inj_str_wall_key WallState_name_roundtrip assms)
  have wh: "load_items (eval_wall_key ext) Inr (dict_comp str_wall_key id (wall_health w)) [] = Inr (wall_health w)"
    by (rule save_then_load_items) (simp_all add: eval_wall_key_str inj_str_wall_key assms)
  have wcr: "load_items (eval_wall_key ext) Inr (dict_comp str_wall_key id (wall_cracks w)) [] = Inr (wall_cracks w)"
    by (rule save_then_load_items) (simp_all add: eval_wall_key_str inj_str_wall_key assms)
  have pd: "load_items (eval_wall_key ext) Inr (dict_comp str_wall_key id (pre_damaged_walls w)) []
              = Inr (pre_damaged_walls w)"
    by (rule save_then_load_items) (simp_all add: eval_wall_key_str inj_str_wall_key assms)
  show ?thesis
    by (simp add: load_state_def get_state_for_save_def opt_default_def Let_def wc pc ws wh wcr pd)
qed


text \<open>
  \<^bold>\<open>C2.\<close> For a world whose dictionaries have distinct keys (as every Python \<open>dict\<close> has),
  loading the document of \<open>get_state_for_save\<close> into any world \<open>w0\<close> succeeds and gives a
  world with the same \<open>destroyed_walls\<close> and \<open>destroyed_pillars\<close> as sets, the same
  \<open>wall_states\<close>, \<open>wall_health\<close>, \<open>wall_cracks\<close>, \<open>wall_cache\<close> and \<open>pillar_cache\<close> as maps, the
  same seed, and an empty \<open>zone_cache\<close>. Nothing of \<open>w0\<close> shows in these fields: the
  state is replaced, not merged.
\<close>

theorem save_load_roundtrip:
  assumes "distinct (map fst (wall_cache w))" and "distinct (map fst (pillar_cache w))"
    and "distinct (map fst (wall_states w))" and "distinct (map fst (wall_health w))"
    and "distinct (map fst (wall_cracks w))" and "distinct (map fst (pre_damaged_walls w))"
  shows "\<exists>w'. load_state ext w0 (get_state_for_save w) = Inr w'
     \<and> set (destroyed_walls w') = set (destroyed_walls w)
     \<and> set (destroyed_pillars w') = set (destroyed_pillars w)
     \<and> map_of (wall_states w') = map_of (wall_states w)
     \<and> map_of (wall_health w') = map_of (wall_health w)
     \<and> map_of (wall_cracks w') = map_of (wall_cracks w)
     \<and> map_of (wall_cache w') = map_of (wall_cache w)
     \<and> map_of (pillar_cache w') = map_of (pillar_cache w)
     \<and> world_seed w' = world_seed w
     \<and> zone_cache w' = []"
  using load_after_save [OF assms, of ext w0] by (simp add: set_py_set)

theorem save_load_roundtrip_witness:
  "distinct (map fst (wall_cache example_damaged_world))
   \<and> distinct (map fst (pillar_cache example_damaged_world))
   \<and> distinct (map fst (wall_states example_damaged_world))
   \<and> distinct (map fst (wall_health example_damaged_world))
   \<and> distinct (map fst (wall_cracks example_damaged_world))
   \<and> distinct (map fst (pre_damaged_walls example_damaged_world))
   \<and> (\<exists>w'. load_state example_externals example_full_world (get_state_for_save example_damaged_world) = Inr w'
        \<and> set (destroyed_walls w') = {((0, 0), (0, 400))}
        \<and> set (destroyed_pillars w') = {(200, 200)}
        \<and> map_of (wall_states w') = map_of [(((0, 0), (400, 0)), CRACKED), (((0, 0), (0, 400)), DESTROYED)]
        \<and> map_of (wall_health w') = map_of [(((0, 0), (400, 0)), 1 / 2), (((0, 0), (0, 400)), 0)]
        \<and> zone_cache w' = [])"
proof -
  have d: "distinct (map fst (wall_cache example_damaged_world))"
    "distinct (map fst (pillar_cache example_damaged_world))"
    "distinct (map fst (wall_states example_damaged_world))"
    "distinct (map fst (wall_health example_damaged_world))"
    "distinct (map fst (wall_cracks example_damaged_world))"
    "distinct (map fst (pre_damaged_walls example_damaged_world))"
    by (simp_all add: example_damaged_world_def)
  have v: "destroyed_walls example_damaged_world = [((0, 0), (0, 400))]"
    "destroyed_pillars example_damaged_world = [(200, 200)]"
    "wall_states example_damaged_world = [(((0, 0), (400, 0)), CRACKED), (((0, 0), (0, 400)), DESTROYED)]"
    "wall_health example_damaged_world = [(((0, 0), (400, 0)), 1 / 2), (((0, 0), (0, 400)), 0)]"
    by (simp_all add: example_damaged_world_def)
  from save_load_roundtrip [OF d, of example_externals example_full_world]
  obtain w' where "load_state example_externals example_full_world (get_state_for_save example_damaged_world) = Inr w'"
    "set (destroyed_walls w') = set (destroyed_walls example_damaged_world)"
    "set (destroyed_pillars w') = set (destroyed_pillars example_damaged_world)"
    "map_of (wall_states w') = map_of (wall_states example_damaged_world)"
    "map_of (wall_health w') = map_of (wall_health example_damaged_world)"
    "zone_cache w' = []"
    by blast
  then show ?thesis using d unfolding v by auto
qed

subsection \<open>Key strings that are no key\<close>









subsection \<open>The saved debris list\<close>

lemma saved_debris_at_most_1000:
  "length (opt_default [] (doc_debris_pieces (get_state_for_save w))) \<le> 1000"
  by (simp add: get_state_for_save_def opt_default_def)

lemma active_example_particle: "active (example_particle i)"
  by (simp add: example_particle_def example_Debris_init_def)

text \<open>
  \<^bold>\<open>C5.\<close> The saved list never has more than 1000 entries
  (\<open>saved_debris_at_most_1000\<close>), but the slice \<open>[:1000]\<close> keeps the head of the list. With
  1001 active particles, appended in the order of their \<open>cx\<close> = 0, 1, ..., 1000, the
  document holds those with \<open>cx\<close> = 0, ..., 999: the most recently appended particle is the
  one that is dropped.
\<close>

theorem save_keeps_first_1000_debris:
  "length (filter active (debris_pieces example_full_world)) = 1001
   \<and> cx (last (debris_pieces example_full_world)) = 1000
   \<and> map dd_cx (opt_default [] (doc_debris_pieces (get_state_for_save example_full_world)))
       = map of_nat [0..<1000]"
proof -
  have ds: "debris_pieces example_full_world = map example_particle [0..<1001]"
    by (simp add: example_full_world_def)
  have f: "filter active (map example_particle xs) = map example_particle xs" for xs
    by (induction xs) (simp_all add: active_example_particle)
  have 1: "length (filter active (debris_pieces example_full_world)) = 1001"
    unfolding ds f by simp
  have "last (map example_particle [0..<1001]) = example_particle 1000"
    by (simp add: last_map)
  then have 2: "cx (last (debris_pieces example_full_world)) = 1000"
    unfolding ds by (simp add: example_particle_def example_Debris_init_def)
  have c: "dd_cx (debris_to_doc (example_particle i)) = of_nat i" for i
    by (simp add: debris_to_doc_def example_particle_def example_Debris_init_def)
  have "opt_default [] (doc_debris_pieces (get_state_for_save example_full_world))
          = take 1000 (map debris_to_doc (map example_particle [0..<1001]))"
    unfolding get_state_for_save_def opt_default_def ds f by simp
  also have "\<dots> = map debris_to_doc (map example_particle (take 1000 [0..<1001]))"
    by (simp only: take_map)
  also have "take 1000 [0..<1001] = [0..<1000]"
    by (simp only: take_upt) simp
  finally have 3: "map dd_cx (opt_default [] (doc_debris_pieces (get_state_for_save example_full_world)))
       = map of_nat [0..<1000]"
    by (simp add: c comp_def del: upt_Suc)
  from 1 2 3 show ?thesis by blast
qed

subsection \<open>Health below zero\<close>

lemma map_of_map_key:
  assumes "inj f"
  shows "map_of (map (\<lambda>(k, v). (f k, g v)) al) (f k) = map_option g (map_of al k)"
  using assms by (induction al) (auto simp: inj_eq)

text \<open>
  \<^bold>\<open>C10.\<close> When a hit brings the health of a wall that is not destroyed strictly below
  zero, \<open>hit_wall\<close> returns true, the entry of \<open>wall_health\<close> is that negative number, the
  document of \<open>get_state_for_save\<close> holds it under the key's string, and \<open>get_wall_health\<close>
  reads 0.
\<close>

theorem negative_health_is_stored:
  assumes "k \<notin> set (destroyed_walls w)" and "get_wall_health w k - damage < 0"
    and "distinct (map fst (wall_health w))"
  shows "\<exists>w'. hit_wall cfg ext rnd w k damage = Inr (True, w')
     \<and> map_of (wall_health w') k = Some (get_wall_health w k - damage)
     \<and> map_of (opt_default [] (doc_wall_health (get_state_for_save w'))) (str_wall_key k)
         = Some (get_wall_health w k - damage)
     \<and> get_wall_health w' k = 0"
proof -
  define h where "h = get_wall_health w k - damage"
  define w1 where "w1 = (if map_of (wall_health w) k = None
             then w\<lparr>wall_health := AList.update k 1 (wall_health w),
                    wall_states := AList.update k INTACT (wall_states w)\<rparr> else w)"
  define w2 where "w2 = w1\<lparr>wall_health := AList.update k h (wall_health w1)\<rparr>"
  define w3 where "w3 = w2\<lparr>destroyed_walls := List.insert k (destroyed_walls w2),
                  wall_states := AList.update k DESTROYED (wall_states w2)\<rparr>"
  define w' where "w' = spawn_wall_debris cfg ext rnd w3 k"
  have cur: "(case map_of (wall_health w1) k of Some h \<Rightarrow> h | None \<Rightarrow> 1) = get_wall_health w k"
    using assms(1) by (simp add: w1_def get_wall_health_def update_conv' split: option.splits)
  have hit: "hit_wall cfg ext rnd w k damage = Inr (True, w')"
    using assms(1,2) unfolding hit_wall_def Let_def w'_def w3_def w2_def w1_def [symmetric] cur h_def
    by simp
  have d1: "distinct (map fst (wall_health w1))"
    using assms(3) by (simp add: w1_def distinct_update)
  have wh: "wall_health w' = AList.update k h (wall_health w1)"
    by (simp add: w'_def w3_def w2_def spawn_wall_debris_frame)
  have stored: "map_of (wall_health w') k = Some h"
    unfolding wh by (simp add: update_conv')
  have dist: "distinct (map fst (wall_health w'))"
    unfolding wh using d1 by (simp add: distinct_update)
  have "opt_default [] (doc_wall_health (get_state_for_save w'))
          = map (\<lambda>(k, v). (str_wall_key k, id v)) (wall_health w')"
    by (simp add: get_state_for_save_def opt_default_def dict_comp_distinct [OF inj_str_wall_key dist])
  then have saved: "map_of (opt_default [] (doc_wall_health (get_state_for_save w'))) (str_wall_key k) = Some h"
    using stored by (simp add: map_of_map_key [OF inj_str_wall_key])
  have reads: "get_wall_health w' k = 0"
    by (simp add: get_wall_health_def w'_def w3_def spawn_wall_debris_frame)
  from hit stored saved reads show ?thesis unfolding h_def by blast
qed

theorem negative_health_is_stored_witness:
  "example_key \<notin> set (destroyed_walls example_damaged_world)
   \<and> get_wall_health example_damaged_world example_key - 2 < 0
   \<and> distinct (map fst (wall_health example_damaged_world))
   \<and> (\<exists>w'. hit_wall example_config example_externals example_rand example_damaged_world example_key 2
              = Inr (True, w')
        \<and> map_of (wall_health w') example_key = Some (- (3 / 2))
        \<and> map_of (opt_default [] (doc_wall_health (get_state_for_save w'))) ''((0, 0), (400, 0))''
            = Some (- (3 / 2))
        \<and> get_wall_health w' example_key = 0)"
proof -
  have a: "example_key \<notin> set (destroyed_walls example_damaged_world)"
    by (simp add: example_damaged_world_def example_key_def)
  have h: "get_wall_health example_damaged_world example_key = 1 / 2"
    by (simp add: get_wall_health_def example_damaged_world_def example_key_def)
  have b: "get_wall_health example_damaged_world example_key - 2 < 0"
    unfolding h by simp
  have c: "distinct (map fst (wall_health example_damaged_world))"
    by (simp add: example_damaged_world_def)
  have s: "str_wall_key example_key = ''((0, 0), (400, 0))''"
    unfolding example_key_def by code_simp
  from negative_health_is_stored [OF a b c, of example_config example_externals example_rand]
  show ?thesis using a b c unfolding h s by simp
qed

subsection \<open>The debris pool after an update\<close>

lemma active_cull_step:
  "active (cull_step cfg ext dt px pz d) \<longleftrightarrow>
     active (Debris_update ext dt (get_scaled_floor_y cfg) d)
     \<and> (cx (Debris_update ext dt (get_scaled_floor_y cfg) d) - px)\<^sup>2
       + (cz (Debris_update ext dt (get_scaled_floor_y cfg) d) - pz)\<^sup>2 \<le> 900 * 900"
  by (auto simp: cull_step_def Let_def power2_eq_square)

lemma cull_step_active_eq:
  "active (cull_step cfg ext dt px pz d) \<Longrightarrow>
     cull_step cfg ext dt px pz d = Debris_update ext dt (get_scaled_floor_y cfg) d"
  by (auto simp: cull_step_def Let_def split: if_splits)

text \<open>
  \<^bold>\<open>C6.\<close> After \<open>update_debris\<close>, \<open>debris_pieces\<close> is the list of the particles that are
  still active after their own update and the distance cull, cut to its last 12000
  elements: the cull comes first, the cap counts live particles only and keeps the most
  recently appended ones. Every particle left is the update of a particle of the old list,
  is active, and lies within squared distance \<open>900 * 900\<close> of the player.
\<close>

theorem update_debris_culls_then_caps:
  "debris_pieces (update_debris cfg ext w dt px pz)
     = drop (length (filter active (map (cull_step cfg ext dt px pz) (debris_pieces w))) - 12000)
         (filter active (map (cull_step cfg ext dt px pz) (debris_pieces w)))
   \<and> length (debris_pieces (update_debris cfg ext w dt px pz)) \<le> 12000
   \<and> (\<forall>d \<in> set (debris_pieces (update_debris cfg ext w dt px pz)).
        \<exists>d0 \<in> set (debris_pieces w).
          d = Debris_update ext dt (get_scaled_floor_y cfg) d0 \<and> active d
          \<and> (cx d - px)\<^sup>2 + (cz d - pz)\<^sup>2 \<le> 900 * 900)"
proof -
  let ?live = "filter active (map (cull_step cfg ext dt px pz) (debris_pieces w))"
  have res: "debris_pieces (update_debris cfg ext w dt px pz) = drop (length ?live - 12000) ?live"
    by (simp add: update_debris_def Let_def)
  have len: "length (drop (length ?live - 12000) ?live) \<le> 12000"
    by simp
  have mem: "\<exists>d0 \<in> set (debris_pieces w).
          d = Debris_update ext dt (get_scaled_floor_y cfg) d0 \<and> active d
          \<and> (cx d - px)\<^sup>2 + (cz d - pz)\<^sup>2 \<le> 900 * 900"
    if "d \<in> set (drop (length ?live - 12000) ?live)" for d
  proof -
    from that have "d \<in> set ?live" by (rule in_set_dropD)
    then obtain d0 where d0: "d0 \<in> set (debris_pieces w)" "d = cull_step cfg ext dt px pz d0" "active d"
      by auto
    from d0(2,3) have eq: "d = Debris_update ext dt (get_scaled_floor_y cfg) d0"
      using cull_step_active_eq by metis
    from d0(2,3) have "(cx (Debris_update ext dt (get_scaled_floor_y cfg) d0) - px)\<^sup>2
       + (cz (Debris_update ext dt (get_scaled_floor_y cfg) d0) - pz)\<^sup>2 \<le> 900 * 900"
      using active_cull_step by metis
    with d0(1,3) eq show ?thesis by (intro bexI [of _ d0]) simp_all
  qed
  show ?thesis unfolding res using len mem by blast
qed

theorem update_debris_culls_then_caps_witness:
  "debris_pieces (update_debris example_config example_externals example_debris_world 1 0 0)
     = [example_particle 5]
   \<and> (\<exists>d0 \<in> set (debris_pieces example_debris_world).
        example_particle 5 = Debris_update example_externals 1 (get_scaled_floor_y example_config) d0
        \<and> active (example_particle 5)
        \<and> (cx (example_particle 5) - 0)\<^sup>2 + (cz (example_particle 5) - 0)\<^sup>2 \<le> 900 * 900)"
proof -
  have r: "debris_pieces (update_debris example_config example_externals example_debris_world 1 0 0)
     = [example_particle 5]"
    by (simp add: update_debris_def cull_step_def example_debris_world_def example_externals_def
        example_particle_def example_Debris_init_def Let_def)
  from update_debris_culls_then_caps
    [of example_config example_externals example_debris_world 1 0 0]
  show ?thesis unfolding r by simp
qed

subsection \<open>What a collision query changes\<close>

lemma first_discovery_refl: "first_discovery w w"
  by (simp add: first_discovery_def)

lemma map_le_None: "m \<subseteq>\<^sub>m m' \<Longrightarrow> m' k = None \<Longrightarrow> m k = None"
  by (metis domIff map_le_def)

lemma map_le_Some: "m \<subseteq>\<^sub>m m' \<Longrightarrow> m k = Some v \<Longrightarrow> m' k = Some v"
  by (metis domI map_le_def)

lemma first_discovery_trans:
  assumes "first_discovery w1 w2" "first_discovery w2 w3"
  shows "first_discovery w1 w3"
proof -
  have new: "map_of (wall_cache w1) k = None \<and> (\<exists>d. map_of (pre_damaged_walls w3) k = Some d \<and> d < 2 / 10)"
    if k: "k \<in> set (destroyed_walls w3) - set (destroyed_walls w1)" for k
  proof (cases "k \<in> set (destroyed_walls w2)")
    case True
    with k assms(1) obtain d where "map_of (wall_cache w1) k = None"
      "map_of (pre_damaged_walls w2) k = Some d" "d < 2 / 10"
      unfolding first_discovery_def by blast
    moreover have "map_of (pre_damaged_walls w2) \<subseteq>\<^sub>m map_of (pre_damaged_walls w3)"
      using assms(2) by (simp add: first_discovery_def)
    ultimately show ?thesis using map_le_Some [of "map_of (pre_damaged_walls w2)" "map_of (pre_damaged_walls w3)" k d]
      by blast
  next
    case False
    with k assms(2) obtain d where "map_of (wall_cache w2) k = None"
      "map_of (pre_damaged_walls w3) k = Some d" "d < 2 / 10"
      unfolding first_discovery_def by blast
    moreover have "map_of (wall_cache w1) \<subseteq>\<^sub>m map_of (wall_cache w2)"
      using assms(1) by (simp add: first_discovery_def)
    ultimately show ?thesis using map_le_None [of "map_of (wall_cache w1)" "map_of (wall_cache w2)" k]
      by blast
  qed
  have rest: "wall_health w3 = wall_health w1 \<and> wall_states w3 = wall_states w1
     \<and> wall_cracks w3 = wall_cracks w1 \<and> debris_pieces w3 = debris_pieces w1
     \<and> world_seed w3 = world_seed w1 \<and> destroyed_pillars w3 = destroyed_pillars w1
     \<and> destroyed_lamps w3 = destroyed_lamps w1 \<and> triggered_traps w3 = triggered_traps w1
     \<and> spawned_rubble w3 = spawned_rubble w1"
    using assms by (simp add: first_discovery_def)
  have maps: "map_of (wall_cache w1) \<subseteq>\<^sub>m map_of (wall_cache w3)"
     "map_of (pillar_cache w1) \<subseteq>\<^sub>m map_of (pillar_cache w3)"
     "map_of (zone_cache w1) \<subseteq>\<^sub>m map_of (zone_cache w3)"
     "map_of (pre_damaged_walls w1) \<subseteq>\<^sub>m map_of (pre_damaged_walls w3)"
     "set (destroyed_walls w1) \<subseteq> set (destroyed_walls w3)"
    using assms unfolding first_discovery_def by (blast intro: map_le_trans)+
  show ?thesis
    unfolding first_discovery_def using rest maps new by blast
qed

lemma map_le_update_fresh: "map_of al k = None \<Longrightarrow> map_of al \<subseteq>\<^sub>m map_of (AList.update k v al)"
  by (auto simp: update_conv' map_le_def)

lemma get_zone_properties_discovery:
  "first_discovery w (snd (get_zone_properties ext w zx zz))"
  by (simp add: get_zone_properties_def first_discovery_def Let_def map_le_update_fresh
      split: option.splits)

lemma get_zone_properties_seed:
  "world_seed (snd (get_zone_properties ext w zx zz)) = world_seed w"
  by (simp add: get_zone_properties_def Let_def split: option.splits)

lemma map_le_upd_fresh: "m k = None \<Longrightarrow> m \<subseteq>\<^sub>m m(k \<mapsto> v)"
  by (auto simp: map_le_def)

lemma get_zone_properties_shape:
  "\<exists>zc. snd (get_zone_properties ext w zx zz) = w\<lparr>zone_cache := zc\<rparr>
        \<and> map_of (zone_cache w) \<subseteq>\<^sub>m map_of zc"
proof (cases "map_of (zone_cache w) (zx, zz)")
  case None
  then show ?thesis
    by (intro exI [of _ "AList.update (zx, zz) (get_zone_properties_ext ext zx zz (world_seed w)) (zone_cache w)"])
       (simp add: get_zone_properties_def Let_def map_le_update_fresh)
next
  case (Some p)
  then show ?thesis
    by (intro exI [of _ "zone_cache w"]) (simp add: get_zone_properties_def)
qed

lemma roll_pre_damage_discovery:
  assumes "map_of (pre_damaged_walls w) key = None" "map_of (wall_cache w) key = None"
  shows "first_discovery w (case roll_pre_damage cfg ext w key x1 z1 x2 z2 of Inl (e, v) \<Rightarrow> v | Inr v \<Rightarrow> v)"
proof (cases "get_zone_at cfg (of_int (x1 + x2) / 2) (of_int (z1 + z2) / 2)")
  case (Inl e)
  then show ?thesis by (simp add: roll_pre_damage_def first_discovery_refl)
next
  case (Inr zone)
  obtain props w1 where g: "get_zone_properties ext w (fst zone) (snd zone) = (props, w1)"
    by (cases "get_zone_properties ext w (fst zone) (snd zone)")
  obtain zc where w1: "w1 = w\<lparr>zone_cache := zc\<rparr>" "map_of (zone_cache w) \<subseteq>\<^sub>m map_of zc"
    using get_zone_properties_shape [of ext w "fst zone" "snd zone"] g by auto
  show ?thesis
    using Inr g assms w1(2)
    by (auto simp: roll_pre_damage_def Let_def w1(1) first_discovery_def map_le_upd_fresh update_conv')
qed

lemma roll_pre_damage_wall_cache:
  "wall_cache (case roll_pre_damage cfg ext w key x1 z1 x2 z2 of Inl (e, v) \<Rightarrow> v | Inr v \<Rightarrow> v) = wall_cache w"
proof (cases "get_zone_at cfg (of_int (x1 + x2) / 2) (of_int (z1 + z2) / 2)")
  case (Inl e)
  then show ?thesis by (simp add: roll_pre_damage_def)
next
  case (Inr zone)
  obtain props w1 where g: "get_zone_properties ext w (fst zone) (snd zone) = (props, w1)"
    by (cases "get_zone_properties ext w (fst zone) (snd zone)")
  obtain zc where w1: "w1 = w\<lparr>zone_cache := zc\<rparr>"
    using get_zone_properties_shape [of ext w "fst zone" "snd zone"] g by auto
  show ?thesis
    using Inr g by (simp add: roll_pre_damage_def Let_def w1)
qed

lemma cache_insert_discovery:
  assumes "first_discovery w w1" "map_of (wall_cache w1) key = None"
  shows "first_discovery w (w1\<lparr>wall_cache := AList.update key b (wall_cache w1)\<rparr>)"
proof -
  have "first_discovery w1 (w1\<lparr>wall_cache := AList.update key b (wall_cache w1)\<rparr>)"
    using assms(2) by (simp add: first_discovery_def map_le_update_fresh)
  with assms(1) show ?thesis by (rule first_discovery_trans)
qed

lemma has_wall_between_discovery:
  "first_discovery w (world_after (has_wall_between cfg ext w x1 z1 x2 z2))"
proof (cases "map_of (wall_cache w) (sorted_key (x1, z1) (x2, z2))")
  case (Some b)
  then show ?thesis
    by (simp add: has_wall_between_def world_after_def first_discovery_refl)
next
  case None
  define key where "key = sorted_key (x1, z1) (x2, z2)"
  note None' = None [folded key_def]
  show ?thesis
  proof (cases "z1 = z2 \<or> x1 = x2")
    case False
    have "first_discovery w (w\<lparr>wall_cache := AList.update key False (wall_cache w)\<rparr>)"
      by (rule cache_insert_discovery [OF first_discovery_refl None'])
    with False None' show ?thesis
      by (simp add: has_wall_between_def world_after_def Let_def key_def [symmetric])
  next
    case True
    define r where "r = (if map_of (pre_damaged_walls w) key = None
                      then roll_pre_damage cfg ext w key x1 z1 x2 z2 else Inr w)"
    have hw: "has_wall_between cfg ext w x1 z1 x2 z2 =
        (case r of Inl err \<Rightarrow> Inl err
         | Inr w1 \<Rightarrow> Inr (True, w1\<lparr>wall_cache := AList.update key True (wall_cache w1)\<rparr>))"
      using True None' by (auto simp: has_wall_between_def Let_def key_def [symmetric] r_def)
    have rd: "first_discovery w (case r of Inl (e, v) \<Rightarrow> v | Inr v \<Rightarrow> v)"
      using roll_pre_damage_discovery [OF _ None', of cfg ext x1 z1 x2 z2]
      by (simp add: r_def first_discovery_refl)
    have rc: "wall_cache (case r of Inl (e, v) \<Rightarrow> v | Inr v \<Rightarrow> v) = wall_cache w"
      by (simp add: r_def roll_pre_damage_wall_cache)
    show ?thesis
    proof (cases r)
      case (Inl err)
      with rd show ?thesis
        by (simp add: hw world_after_def split: prod.splits)
    next
      case (Inr w1)
      with rd rc have "first_discovery w w1" "map_of (wall_cache w1) key = None"
        using None' by simp_all
      then have "first_discovery w (w1\<lparr>wall_cache := AList.update key True (wall_cache w1)\<rparr>)"
        by (rule cache_insert_discovery)
      with Inr show ?thesis
        by (simp add: hw world_after_def)
    qed
  qed
qed

lemma has_pillar_at_discovery:
  "first_discovery w (world_after (has_pillar_at cfg ext w px pz))"
proof (cases "map_of (pillar_cache w) (px, pz)")
  case (Some b)
  then show ?thesis
    by (simp add: has_pillar_at_def world_after_def first_discovery_refl)
next
  case None
  have ins: "first_discovery w (w\<lparr>pillar_cache := AList.update (px, pz) b (pillar_cache w)\<rparr>)" for b
    using None by (simp add: first_discovery_def map_le_update_fresh)
  show ?thesis
    using None ins
    by (simp add: has_pillar_at_def world_after_def Let_def first_discovery_refl)
qed


lemma world_after_simps [simp]:
  "world_after (Inl (e, w)) = w" "world_after (Inr (v, w)) = w"
  by (simp_all add: world_after_def)

lemma check_cell_discovery:
  "first_discovery w (world_after (check_cell cfg ext x z w gx gz))"
proof -
  define S where "S = PILLAR_SPACING cfg"
  define r1 where "r1 = has_wall_between cfg ext w gx gz (gx + S) gz"
  have d1: "first_discovery w (world_after r1)"
    unfolding r1_def by (rule has_wall_between_discovery)
  show ?thesis
  proof (cases r1)
    case (Inl err)
    with d1 show ?thesis
      by (cases err) (simp add: check_cell_def Let_def S_def [symmetric] r1_def [symmetric])
  next
    case (Inr p1)
    obtain hw w1 where p1: "p1 = (hw, w1)" by (cases p1)
    have w1: "first_discovery w w1" using d1 Inr p1 by simp
    define r2 where "r2 = has_wall_between cfg ext w1 gx gz gx (gz + S)"
    have d2: "first_discovery w (world_after r2)"
      using w1 has_wall_between_discovery [of w1 cfg ext gx gz gx "gz + S"]
      unfolding r2_def by (rule first_discovery_trans)
    show ?thesis
    proof (cases r2)
      case (Inl err)
      with d2 w1 show ?thesis
        by (cases err)
           (simp add: check_cell_def Let_def S_def [symmetric] r1_def [symmetric] \<open>r1 = Inr p1\<close> p1
             r2_def [symmetric])
    next
      case r2: (Inr p2)
      obtain vw w2 where p2: "p2 = (vw, w2)" by (cases p2)
      have w2: "first_discovery w w2" using d2 r2 p2 by simp
      define r3 where "r3 = has_pillar_at cfg ext w2 (gx + S div 2) (gz + S div 2)"
      have d3: "first_discovery w (world_after r3)"
        using w2 has_pillar_at_discovery [of w2 cfg ext "gx + S div 2" "gz + S div 2"]
        unfolding r3_def by (rule first_discovery_trans)
      have "first_discovery w (world_after (case r3 of Inl err \<Rightarrow> Inl err | Inr (hp, w3) \<Rightarrow> Inr (f hp w3, w3)))" for f :: "bool \<Rightarrow> world \<Rightarrow> bool"
        using d3 by (cases r3) (auto split: prod.splits)
      with w1 w2 show ?thesis
        by (simp add: check_cell_def Let_def S_def [symmetric] r1_def [symmetric] \<open>r1 = Inr p1\<close> p1
             r2_def [symmetric] r2 p2 r3_def [symmetric])
    qed
  qed
qed

lemma scan_z_discovery:
  "first_discovery w (world_after (scan_z cfg ext x z gx zs w))"
proof (induction zs arbitrary: w)
  case Nil
  then show ?case by (simp add: first_discovery_refl)
next
  case (Cons gz zs)
  have c: "first_discovery w (world_after (check_cell cfg ext x z w gx gz))"
    by (rule check_cell_discovery)
  show ?case
  proof (cases "check_cell cfg ext x z w gx gz")
    case (Inl err)
    with c show ?thesis by (cases err) simp
  next
    case (Inr p)
    obtain hit w1 where p: "p = (hit, w1)" by (cases p)
    with c Inr have "first_discovery w w1" by simp
    from this Cons.IH [of w1] have "first_discovery w (world_after (scan_z cfg ext x z gx zs w1))"
      by (rule first_discovery_trans)
    with \<open>first_discovery w w1\<close> Inr p show ?thesis by simp
  qed
qed

lemma scan_x_discovery:
  "first_discovery w (world_after (scan_x cfg ext x z xs zs w))"
proof (induction xs arbitrary: w)
  case Nil
  then show ?case by (simp add: first_discovery_refl)
next
  case (Cons gx xs)
  have c: "first_discovery w (world_after (scan_z cfg ext x z gx zs w))"
    by (rule scan_z_discovery)
  show ?case
  proof (cases "scan_z cfg ext x z gx zs w")
    case (Inl err)
    with c show ?thesis by (cases err) simp
  next
    case (Inr p)
    obtain hit w1 where p: "p = (hit, w1)" by (cases p)
    with c Inr have "first_discovery w w1" by simp
    from this Cons.IH [of w1] have "first_discovery w (world_after (scan_x cfg ext x z xs zs w1))"
      by (rule first_discovery_trans)
    with \<open>first_discovery w w1\<close> Inr p show ?thesis by simp
  qed
qed

text \<open>
  \<^bold>\<open>C9.\<close> \<open>check_collision\<close>, at any position and whether it returns or raises, leaves
  \<open>wall_health\<close>, \<open>wall_states\<close>, \<open>wall_cracks\<close> and \<open>debris_pieces\<close> as they were. It may only
  add entries to \<open>wall_cache\<close>, \<open>pillar_cache\<close>, \<open>zone_cache\<close> and \<open>pre_damaged_walls\<close> (no
  entry changes), and add to \<open>destroyed_walls\<close> walls discovered by this call whose
  pre-damage is below 0.2.
\<close>

theorem check_collision_only_discovers:
  "first_discovery w (world_after (check_collision cfg ext w xf zf))"
proof (cases xf)
  case (Finite x)
  show ?thesis
  proof (cases zf)
    case z: (Finite z)
    show ?thesis
      unfolding check_collision_def Finite z
      by (simp add: Let_def first_discovery_refl scan_x_discovery)
  qed (simp_all add: check_collision_def Finite first_discovery_refl)
qed (simp_all add: check_collision_def first_discovery_refl)

subsection \<open>Which cells the scan visits, and what makes it return\<close>

lemma py_range_member:
  assumes "0 < s" "a \<le> k" "k < b" "(k - a) mod s = 0"
  shows "k \<in> set (py_range a b s)"
proof -
  define q where "q = (k - a) div s"
  have qs: "q * s = k - a"
    using assms(4) unfolding q_def by (metis add.right_neutral div_mult_mod_eq)
  have q0: "0 \<le> q"
    using assms(1,2) unfolding q_def by (simp add: pos_imp_zdiv_nonneg_iff)
  have "(q + 1) * s \<le> b - a + s - 1"
    using qs assms(3) by (simp add: algebra_simps)
  then have "((q + 1) * s) div s \<le> (b - a + s - 1) div s"
    by (rule zdiv_mono1) (rule assms(1))
  then have "q < (b - a + s - 1) div s"
    using assms(1) by simp
  then have lt: "nat q < nat ((b - a + s - 1) div s)"
    using q0 by simp
  have k: "k = a + int (nat q) * s"
    using qs q0 by simp
  have "a + int (nat q) * s \<in> (\<lambda>i. a + int i * s) ` set [0..<nat ((b - a + s - 1) div s)]"
    using lt by (intro imageI) simp
  then show ?thesis
    using assms(1) unfolding py_range_def k [symmetric] by simp
qed

lemma grid_in_range_low:
  fixes c :: rat
  assumes "0 < S" "g mod S = 0" "c - 2 * of_int S \<le> of_int g"
  shows "\<lfloor>(c - of_int (S * 2)) / of_int S\<rfloor> * S \<le> g"
proof -
  obtain m where m: "g = m * S" using assms(2) by (metis mod_eq_0_iff_dvd dvd_def mult.commute)
  have "(c - of_int (S * 2)) / of_int S \<le> of_int m"
    using assms(1,3) by (simp add: m field_simps)
  then have "\<lfloor>(c - of_int (S * 2)) / of_int S\<rfloor> \<le> m"
    by (simp add: floor_le_iff)
  then show ?thesis using assms(1) by (simp add: m)
qed

lemma grid_in_range_high:
  fixes c :: rat
  assumes "0 < S" "g mod S = 0" "of_int g \<le> c + 2 * of_int S"
  shows "g < \<lfloor>(c + of_int (S * 2)) / of_int S\<rfloor> * S + S"
proof -
  obtain m where m: "g = m * S" using assms(2) by (metis mod_eq_0_iff_dvd dvd_def mult.commute)
  have "of_int m \<le> (c + of_int (S * 2)) / of_int S"
    using assms(1,3) by (simp add: m field_simps)
  then have "m \<le> \<lfloor>(c + of_int (S * 2)) / of_int S\<rfloor>"
    by (simp add: le_floor_iff)
  then have "m * S \<le> \<lfloor>(c + of_int (S * 2)) / of_int S\<rfloor> * S"
    using assms(1) by simp
  with assms(1) show ?thesis unfolding m by linarith
qed

lemma grid_scanned:
  fixes c :: rat
  assumes "0 < S" "g mod S = 0" "c - 2 * of_int S \<le> of_int g" "of_int g \<le> c + 2 * of_int S"
  shows "g \<in> set (py_range (\<lfloor>(c - of_int (S * 2)) / of_int S\<rfloor> * S)
                    (\<lfloor>(c + of_int (S * 2)) / of_int S\<rfloor> * S + S) S)"
proof (rule py_range_member)
  show "0 < S" by fact
  show "\<lfloor>(c - of_int (S * 2)) / of_int S\<rfloor> * S \<le> g"
    by (rule grid_in_range_low) fact+
  show "g < \<lfloor>(c + of_int (S * 2)) / of_int S\<rfloor> * S + S"
    by (rule grid_in_range_high) fact+
  show "(g - \<lfloor>(c - of_int (S * 2)) / of_int S\<rfloor> * S) mod S = 0"
    using assms(2) by (simp add: mod_diff_left_eq [symmetric])
qed


lemma standing_settled: "standing w key \<Longrightarrow> settled w key"
  by (simp add: standing_def settled_def)

lemma settled_kept:
  assumes "first_discovery w w'" "settled w key"
  shows "settled w' key \<and> map_of (wall_cache w') key = map_of (wall_cache w) key"
proof -
  from assms(2) obtain b where b: "map_of (wall_cache w) key = Some b" "key \<notin> set (destroyed_walls w)"
    by (auto simp: settled_def)
  have le: "map_of (wall_cache w) \<subseteq>\<^sub>m map_of (wall_cache w')"
    using assms(1) by (simp add: first_discovery_def)
  have c: "map_of (wall_cache w') key = Some b"
    using map_le_Some [OF le b(1)] .
  have "key \<notin> set (destroyed_walls w')"
  proof
    assume "key \<in> set (destroyed_walls w')"
    with b(2) have "key \<in> set (destroyed_walls w') - set (destroyed_walls w)" by simp
    with assms(1) have "map_of (wall_cache w) key = None"
      unfolding first_discovery_def by blast
    with b(1) show False by simp
  qed
  with c b show ?thesis by (simp add: settled_def)
qed

lemma standing_kept:
  assumes "first_discovery w w'" "standing w key"
  shows "standing w' key"
  using settled_kept [OF assms(1) standing_settled [OF assms(2)]] assms(2)
  by (simp add: standing_def settled_def)

lemma doorway_type_kept:
  "first_discovery w w' \<Longrightarrow> get_doorway_type ext w' x1 z1 x2 z2 = get_doorway_type ext w x1 z1 x2 z2"
  by (simp add: get_doorway_type_def first_discovery_def)

lemma sorted_key_horizontal: "0 \<le> S \<Longrightarrow> sorted_key (gx, gz) (gx + S, gz) = ((gx, gz), (gx + S, gz))"
  by (simp add: sorted_key_def point_less_def)

lemma sorted_key_vertical: "0 \<le> S \<Longrightarrow> sorted_key (gx, gz) (gx, gz + S) = ((gx, gz), (gx, gz + S))"
  by (simp add: sorted_key_def point_less_def)

lemma has_wall_between_cached:
  "map_of (wall_cache w) (sorted_key (x1, z1) (x2, z2)) = Some b \<Longrightarrow>
     has_wall_between cfg ext w x1 z1 x2 z2 = Inr (b, w)"
  by (simp add: has_wall_between_def)

lemma not_isl_result: "\<not> isl r \<Longrightarrow> \<exists>b w'. r = Inr (b, w')"
  by (cases r) auto

lemma roll_pre_damage_returns:
  "ZONE_SIZE cfg \<noteq> 0 \<Longrightarrow> \<not> isl (roll_pre_damage cfg ext w key x1 z1 x2 z2)"
  by (simp add: roll_pre_damage_def get_zone_at_def Let_def split_beta)

lemma has_wall_between_returns:
  assumes "ZONE_SIZE cfg \<noteq> 0"
  shows "\<not> isl (has_wall_between cfg ext w x1 z1 x2 z2)"
proof -
  have c: "isl (case r of Inl e \<Rightarrow> Inl e | Inr v \<Rightarrow> Inr (f v)) = isl r"
    for r :: "(py_error \<times> world) + world" and f :: "world \<Rightarrow> bool \<times> world"
    by (cases r) auto
  show ?thesis
    by (simp add: has_wall_between_def Let_def c roll_pre_damage_returns [OF assms]
        split: option.splits)
qed

lemma has_pillar_at_returns:
  "PILLAR_SPACING cfg \<noteq> 0 \<Longrightarrow> \<not> isl (has_pillar_at cfg ext w px pz)"
  by (simp add: has_pillar_at_def Let_def split: option.splits)

lemma check_cell_returns:
  assumes "ZONE_SIZE cfg \<noteq> 0" "PILLAR_SPACING cfg \<noteq> 0"
  shows "\<exists>b w'. check_cell cfg ext x z w gx gz = Inr (b, w')"
proof -
  define S where "S = PILLAR_SPACING cfg"
  obtain hw w1 where 1: "has_wall_between cfg ext w gx gz (gx + S) gz = Inr (hw, w1)"
    using has_wall_between_returns [OF assms(1)] not_isl_result by blast
  obtain vw w2 where 2: "has_wall_between cfg ext w1 gx gz gx (gz + S) = Inr (vw, w2)"
    using has_wall_between_returns [OF assms(1)] not_isl_result by blast
  obtain hp w3 where 3: "has_pillar_at cfg ext w2 (gx + S div 2) (gz + S div 2) = Inr (hp, w3)"
    using has_pillar_at_returns [OF assms(2)] not_isl_result by blast
  have "\<not> isl (check_cell cfg ext x z w gx gz)"
    by (simp add: check_cell_def Let_def S_def [symmetric] 1 2 3)
  then show ?thesis by (rule not_isl_result)
qed

lemma scan_z_not_isl:
  assumes "ZONE_SIZE cfg \<noteq> 0" "PILLAR_SPACING cfg \<noteq> 0"
  shows "\<not> isl (scan_z cfg ext x z gx zs w)"
proof (induction zs arbitrary: w)
  case Nil
  show ?case by simp
next
  case (Cons gz zs)
  obtain b w1 where c: "check_cell cfg ext x z w gx gz = Inr (b, w1)"
    using check_cell_returns [OF assms] by blast
  show ?case using Cons.IH [of w1] by (simp add: c)
qed

lemma scan_z_returns:
  assumes "ZONE_SIZE cfg \<noteq> 0" "PILLAR_SPACING cfg \<noteq> 0"
  shows "\<exists>b w'. scan_z cfg ext x z gx zs w = Inr (b, w')"
  using scan_z_not_isl [OF assms] by (rule not_isl_result)

lemma cell_horizontal_hit:
  assumes "0 < PILLAR_SPACING cfg"
    and "standing w ((gx, gz), (gx + PILLAR_SPACING cfg, gz))"
    and "wall_blocks cfg (get_doorway_type ext w gx gz (gx + PILLAR_SPACING cfg) gz) x z gx gz"
  shows "check_cell cfg ext x z w gx gz = Inr (True, w)"
proof -
  have k: "sorted_key (gx, gz) (gx + PILLAR_SPACING cfg, gz) = ((gx, gz), (gx + PILLAR_SPACING cfg, gz))"
    using assms(1) by (simp add: sorted_key_horizontal)
  have 1: "has_wall_between cfg ext w gx gz (gx + PILLAR_SPACING cfg) gz = Inr (True, w)"
    using assms(2) by (intro has_wall_between_cached) (simp add: k standing_def)
  show ?thesis
    using assms(2,3)
    by (simp add: check_cell_def Let_def 1 k standing_def)
qed

lemma cell_vertical_hit:
  assumes "0 < PILLAR_SPACING cfg"
    and "settled w ((gx, gz), (gx + PILLAR_SPACING cfg, gz))"
    and "standing w ((gx, gz), (gx, gz + PILLAR_SPACING cfg))"
    and "wall_blocks cfg (get_doorway_type ext w gx gz gx (gz + PILLAR_SPACING cfg)) z x gz gx"
  shows "check_cell cfg ext x z w gx gz = Inr (True, w)"
proof -
  have kh: "sorted_key (gx, gz) (gx + PILLAR_SPACING cfg, gz) = ((gx, gz), (gx + PILLAR_SPACING cfg, gz))"
    using assms(1) by (simp add: sorted_key_horizontal)
  have kv: "sorted_key (gx, gz) (gx, gz + PILLAR_SPACING cfg) = ((gx, gz), (gx, gz + PILLAR_SPACING cfg))"
    using assms(1) by (simp add: sorted_key_vertical)
  obtain hb where hb: "map_of (wall_cache w) ((gx, gz), (gx + PILLAR_SPACING cfg, gz)) = Some hb"
    using assms(2) by (auto simp: settled_def)
  have 1: "has_wall_between cfg ext w gx gz (gx + PILLAR_SPACING cfg) gz = Inr (hb, w)"
    by (intro has_wall_between_cached) (simp add: kh hb)
  have 2: "has_wall_between cfg ext w gx gz gx (gz + PILLAR_SPACING cfg) = Inr (True, w)"
    using assms(3) by (intro has_wall_between_cached) (simp add: kv standing_def)
  show ?thesis
    using assms(2,3,4)
    by (simp add: check_cell_def Let_def 1 2 kh kv standing_def settled_def)
qed

text \<open>A cell whose test fires, in a way that discovery elsewhere cannot undo, makes the scan
  return true.\<close>

lemma scan_z_hit:
  assumes ok: "ZONE_SIZE cfg \<noteq> 0" "PILLAR_SPACING cfg \<noteq> 0"
    and fires: "\<And>v. P v \<Longrightarrow> check_cell cfg ext x z v gx gz = Inr (True, v)"
    and kept: "\<And>v v'. P v \<Longrightarrow> first_discovery v v' \<Longrightarrow> P v'"
  shows "P w \<Longrightarrow> gz \<in> set zs \<Longrightarrow> \<exists>w'. scan_z cfg ext x z gx zs w = Inr (True, w')"
proof (induction zs arbitrary: w)
  case Nil
  then show ?case by simp
next
  case (Cons c zs)
  obtain b w1 where c: "check_cell cfg ext x z w gx c = Inr (b, w1)"
    using check_cell_returns [OF ok] by blast
  show ?case
  proof (cases b)
    case True
    with c show ?thesis by simp
  next
    case False
    have "c \<noteq> gz" using fires [OF Cons.prems(1)] c False by auto
    with Cons.prems(2) have in_rest: "gz \<in> set zs" by simp
    have "first_discovery w w1"
      using check_cell_discovery [of w cfg ext x z gx c] c by simp
    then have "P w1" using kept Cons.prems(1) by blast
    from Cons.IH [OF this in_rest] c False show ?thesis by simp
  qed
qed

lemma scan_x_hit:
  assumes ok: "ZONE_SIZE cfg \<noteq> 0" "PILLAR_SPACING cfg \<noteq> 0"
    and fires: "\<And>v. P v \<Longrightarrow> check_cell cfg ext x z v gx gz = Inr (True, v)"
    and kept: "\<And>v v'. P v \<Longrightarrow> first_discovery v v' \<Longrightarrow> P v'"
    and gz: "gz \<in> set zs"
  shows "P w \<Longrightarrow> gx \<in> set xs \<Longrightarrow> \<exists>w'. scan_x cfg ext x z xs zs w = Inr (True, w')"
proof (induction xs arbitrary: w)
  case Nil
  then show ?case by simp
next
  case (Cons c xs)
  obtain b w1 where c: "scan_z cfg ext x z c zs w = Inr (b, w1)"
    using scan_z_returns [OF ok] by blast
  show ?case
  proof (cases b)
    case True
    with c show ?thesis by simp
  next
    case False
    have "c \<noteq> gx"
      using scan_z_hit [where P = P, OF ok fires kept Cons.prems(1) gz] c False by auto
    with Cons.prems(2) have in_rest: "gx \<in> set xs" by simp
    have "first_discovery w w1"
      using scan_z_discovery [of w cfg ext x z c zs] c by simp
    then have "P w1" using kept Cons.prems(1) by blast
    from Cons.IH [OF this in_rest] c False show ?thesis by simp
  qed
qed



lemma cell_free_kept:
  "first_discovery w w' \<Longrightarrow> cell_free cfg ext w' x z gx gz = cell_free cfg ext w x z gx gz"
  by (simp add: cell_free_def doorway_type_kept)

lemma check_cell_free:
  assumes ok: "ZONE_SIZE cfg \<noteq> 0" "PILLAR_SPACING cfg \<noteq> 0"
    and free: "cell_free cfg ext w x z gx gz"
  shows "\<exists>w'. check_cell cfg ext x z w gx gz = Inr (False, w')"
proof -
  define S where "S = PILLAR_SPACING cfg"
  obtain hw w1 where 1: "has_wall_between cfg ext w gx gz (gx + S) gz = Inr (hw, w1)"
    using has_wall_between_returns [OF ok(1)] not_isl_result by blast
  obtain vw w2 where 2: "has_wall_between cfg ext w1 gx gz gx (gz + S) = Inr (vw, w2)"
    using has_wall_between_returns [OF ok(1)] not_isl_result by blast
  obtain hp w3 where 3: "has_pillar_at cfg ext w2 (gx + S div 2) (gz + S div 2) = Inr (hp, w3)"
    using has_pillar_at_returns [OF ok(2)] not_isl_result by blast
  have d1: "first_discovery w w1"
    using has_wall_between_discovery [of w cfg ext gx gz "gx + S" gz] 1 by simp
  have d2: "first_discovery w1 w2"
    using has_wall_between_discovery [of w1 cfg ext gx gz gx "gz + S"] 2 by simp
  have t1: "get_doorway_type ext w1 gx gz (gx + S) gz = get_doorway_type ext w gx gz (gx + S) gz"
    using d1 by (rule doorway_type_kept)
  have t2: "get_doorway_type ext w2 gx gz gx (gz + S) = get_doorway_type ext w gx gz gx (gz + S)"
    using first_discovery_trans [OF d1 d2] by (rule doorway_type_kept)
  have "check_cell cfg ext x z w gx gz = Inr (False, w1)
      \<or> check_cell cfg ext x z w gx gz = Inr (False, w2)
      \<or> check_cell cfg ext x z w gx gz = Inr (False, w3)"
    using free unfolding cell_free_def
    by (simp add: check_cell_def Let_def S_def [symmetric] 1 2 3 t1 t2)
  then show ?thesis by blast
qed

lemma scan_z_free:
  assumes ok: "ZONE_SIZE cfg \<noteq> 0" "PILLAR_SPACING cfg \<noteq> 0"
  shows "\<forall>gz \<in> set zs. cell_free cfg ext w x z gx gz \<Longrightarrow>
         \<exists>w'. scan_z cfg ext x z gx zs w = Inr (False, w')"
proof (induction zs arbitrary: w)
  case Nil
  then show ?case by simp
next
  case (Cons c zs)
  have "cell_free cfg ext w x z gx c" using Cons.prems by simp
  from check_cell_free [OF ok this]
  obtain w1 where c: "check_cell cfg ext x z w gx c = Inr (False, w1)" ..
  have "first_discovery w w1"
    using check_cell_discovery [of w cfg ext x z gx c] c by simp
  then have "\<forall>gz \<in> set zs. cell_free cfg ext w1 x z gx gz"
    using Cons.prems by (simp add: cell_free_kept)
  from Cons.IH [OF this] c show ?case by simp
qed

lemma scan_x_free:
  assumes ok: "ZONE_SIZE cfg \<noteq> 0" "PILLAR_SPACING cfg \<noteq> 0"
  shows "\<forall>gx \<in> set xs. \<forall>gz \<in> set zs. cell_free cfg ext w x z gx gz \<Longrightarrow>
         \<exists>w'. scan_x cfg ext x z xs zs w = Inr (False, w')"
proof (induction xs arbitrary: w)
  case Nil
  then show ?case by simp
next
  case (Cons c xs)
  have "\<forall>gz \<in> set zs. cell_free cfg ext w x z c gz" using Cons.prems by simp
  from scan_z_free [OF ok this]
  obtain w1 where c: "scan_z cfg ext x z c zs w = Inr (False, w1)" ..
  have "first_discovery w w1"
    using scan_z_discovery [of w cfg ext x z c zs] c by simp
  then have "\<forall>gx \<in> set xs. \<forall>gz \<in> set zs. cell_free cfg ext w1 x z gx gz"
    using Cons.prems by (simp add: cell_free_kept)
  from Cons.IH [OF this] c show ?case by simp
qed

lemma wall_blocks_near:
  assumes "wall_blocks cfg ot along across s l" "0 \<le> PILLAR_SPACING cfg"
  shows "\<bar>across - of_int l\<bar> < WALL_THICKNESS cfg / 2 + 15
     \<and> of_int s - 15 \<le> along \<and> along \<le> of_int (s + PILLAR_SPACING cfg) + 15"
proof -
  define Sr :: rat where "Sr = of_int (PILLAR_SPACING cfg)"
  define W where "W = opening_width_of cfg ot"
  have S: "0 \<le> Sr" using assms(2) by (simp add: Sr_def)
  show ?thesis
  proof (cases "0 < W")
    case True
    from assms(1) True
    have a: "\<bar>across - of_int l\<bar> < WALL_THICKNESS cfg / 2 + 15"
      and b: "(of_int s \<le> along \<and> along \<le> of_int s + (Sr - W) / 2 - 15)
            \<or> (of_int s + (Sr - W) / 2 + W + 15 \<le> along \<and> along \<le> of_int s + Sr)"
      unfolding wall_blocks_def Let_def W_def Sr_def by simp_all
    from b have "of_int s - 15 \<le> along \<and> along \<le> of_int s + Sr + 15"
    proof
      assume "of_int s \<le> along \<and> along \<le> of_int s + (Sr - W) / 2 - 15"
      with S True show ?thesis by (simp add: field_simps)
    next
      assume "of_int s + (Sr - W) / 2 + W + 15 \<le> along \<and> along \<le> of_int s + Sr"
      with S True show ?thesis by (simp add: field_simps)
    qed
    with a show ?thesis by (simp add: Sr_def)
  next
    case False
    with assms(1) show ?thesis
      unfolding wall_blocks_def Let_def W_def by simp
  qed
qed

lemma pillar_blocks_near:
  assumes "pillar_blocks cfg x z px pz" "0 \<le> PILLAR_SIZE cfg"
  shows "of_int px - 15 < x \<and> x < of_int px + PILLAR_SIZE cfg + 15"
proof -
  define dx where "dx = x - max (of_int px) (min x (of_int px + PILLAR_SIZE cfg))"
  define dz where "dz = z - max (of_int pz) (min z (of_int pz + PILLAR_SIZE cfg))"
  have lt: "dx * dx + dz * dz < 15 * 15"
    using assms(1) by (simp add: pillar_blocks_def Let_def dx_def dz_def)
  have "0 \<le> dz * dz" by simp
  with lt have "dx * dx < 15 * 15" by linarith
  have "\<not> 15 \<le> \<bar>dx\<bar>"
  proof
    assume "15 \<le> \<bar>dx\<bar>"
    then have "15 * 15 \<le> \<bar>dx\<bar> * \<bar>dx\<bar>" by (intro mult_mono) simp_all
    then have "15 * 15 \<le> dx * dx" by simp
    with \<open>dx * dx < 15 * 15\<close> show False by simp
  qed
  then have "\<bar>dx\<bar> < 15" by simp
  then show ?thesis
    using assms(2) unfolding dx_def by (auto simp: max_def min_def split: if_splits)
qed


lemma collision_hit:
  assumes S: "15 \<le> PILLAR_SPACING cfg"
    and Z: "ZONE_SIZE cfg \<noteq> 0"
    and grid: "gx mod PILLAR_SPACING cfg = 0" "gz mod PILLAR_SPACING cfg = 0"
    and near: "x - 2 * of_int (PILLAR_SPACING cfg) \<le> of_int gx" "of_int gx \<le> x + 2 * of_int (PILLAR_SPACING cfg)"
      "z - 2 * of_int (PILLAR_SPACING cfg) \<le> of_int gz" "of_int gz \<le> z + 2 * of_int (PILLAR_SPACING cfg)"
    and fires: "\<And>v. P v \<Longrightarrow> check_cell cfg ext x z v gx gz = Inr (True, v)"
    and kept: "\<And>v v'. P v \<Longrightarrow> first_discovery v v' \<Longrightarrow> P v'"
    and P: "P w"
  shows "\<exists>w'. check_collision cfg ext w (Finite x) (Finite z) = Inr (True, w')"
proof -
  define Sp where "Sp = PILLAR_SPACING cfg"
  have pos: "0 < Sp" and nz: "Sp \<noteq> 0" using S by (simp_all add: Sp_def)
  define xs where "xs = py_range (\<lfloor>(x - of_int (Sp * 2)) / of_int Sp\<rfloor> * Sp)
                    (\<lfloor>(x + of_int (Sp * 2)) / of_int Sp\<rfloor> * Sp + Sp) Sp"
  define zs where "zs = py_range (\<lfloor>(z - of_int (Sp * 2)) / of_int Sp\<rfloor> * Sp)
                    (\<lfloor>(z + of_int (Sp * 2)) / of_int Sp\<rfloor> * Sp + Sp) Sp"
  have gx: "gx \<in> set xs"
    unfolding xs_def using pos grid(1) near(1,2) unfolding Sp_def [symmetric] by (intro grid_scanned)
  have gz: "gz \<in> set zs"
    unfolding zs_def using pos grid(2) near(3,4) unfolding Sp_def [symmetric] by (intro grid_scanned)
  have cc: "check_collision cfg ext w (Finite x) (Finite z) = scan_x cfg ext x z xs zs w"
    using nz by (simp add: check_collision_def Let_def Sp_def [symmetric] xs_def zs_def)
  have ok2: "PILLAR_SPACING cfg \<noteq> 0" using nz by (simp add: Sp_def)
  show ?thesis
    unfolding cc by (rule scan_x_hit [where P = P, OF Z ok2 fires kept gz P gx])
qed

lemma collision_horizontal:
  assumes S: "15 \<le> PILLAR_SPACING cfg"
    and T: "WALL_THICKNESS cfg / 2 + 15 \<le> 2 * of_int (PILLAR_SPACING cfg)"
    and Z: "ZONE_SIZE cfg \<noteq> 0"
    and grid: "gx mod PILLAR_SPACING cfg = 0" "gz mod PILLAR_SPACING cfg = 0"
    and st: "standing w ((gx, gz), (gx + PILLAR_SPACING cfg, gz))"
    and wb: "wall_blocks cfg (get_doorway_type ext w gx gz (gx + PILLAR_SPACING cfg) gz) x z gx gz"
  shows "\<exists>w'. check_collision cfg ext w (Finite x) (Finite z) = Inr (True, w')"
proof -
  define Sr :: rat where "Sr = of_int (PILLAR_SPACING cfg)"
  have Sr: "15 \<le> Sr" using S by (simp add: Sr_def)
  have pos: "0 < PILLAR_SPACING cfg" "0 \<le> PILLAR_SPACING cfg" using S by simp_all
  from wall_blocks_near [OF wb pos(2)]
  have n: "\<bar>z - of_int gz\<bar> < WALL_THICKNESS cfg / 2 + 15" "of_int gx - 15 \<le> x" "x \<le> of_int gx + Sr + 15"
    by (simp_all add: Sr_def)
  have near: "x - 2 * Sr \<le> of_int gx" "of_int gx \<le> x + 2 * Sr"
      "z - 2 * Sr \<le> of_int gz" "of_int gz \<le> z + 2 * Sr"
    using n Sr T unfolding Sr_def [symmetric] by linarith+
  define P where "P v \<longleftrightarrow> standing v ((gx, gz), (gx + PILLAR_SPACING cfg, gz))
      \<and> wall_blocks cfg (get_doorway_type ext v gx gz (gx + PILLAR_SPACING cfg) gz) x z gx gz" for v
  have fires: "\<And>v. P v \<Longrightarrow> check_cell cfg ext x z v gx gz = Inr (True, v)"
    unfolding P_def using cell_horizontal_hit [OF pos(1)] by blast
  have kept: "\<And>v v'. P v \<Longrightarrow> first_discovery v v' \<Longrightarrow> P v'"
    unfolding P_def using standing_kept by (simp add: doorway_type_kept)
  have "P w" unfolding P_def using st wb by simp
  from collision_hit [where P = P, OF S Z grid near [unfolded Sr_def] fires kept this]
  show ?thesis .
qed

lemma collision_vertical:
  assumes S: "15 \<le> PILLAR_SPACING cfg"
    and T: "WALL_THICKNESS cfg / 2 + 15 \<le> 2 * of_int (PILLAR_SPACING cfg)"
    and Z: "ZONE_SIZE cfg \<noteq> 0"
    and grid: "gx mod PILLAR_SPACING cfg = 0" "gz mod PILLAR_SPACING cfg = 0"
    and se: "settled w ((gx, gz), (gx + PILLAR_SPACING cfg, gz))"
    and st: "standing w ((gx, gz), (gx, gz + PILLAR_SPACING cfg))"
    and wb: "wall_blocks cfg (get_doorway_type ext w gx gz gx (gz + PILLAR_SPACING cfg)) z x gz gx"
  shows "\<exists>w'. check_collision cfg ext w (Finite x) (Finite z) = Inr (True, w')"
proof -
  define Sr :: rat where "Sr = of_int (PILLAR_SPACING cfg)"
  have Sr: "15 \<le> Sr" using S by (simp add: Sr_def)
  have pos: "0 < PILLAR_SPACING cfg" "0 \<le> PILLAR_SPACING cfg" using S by simp_all
  from wall_blocks_near [OF wb pos(2)]
  have n: "\<bar>x - of_int gx\<bar> < WALL_THICKNESS cfg / 2 + 15" "of_int gz - 15 \<le> z" "z \<le> of_int gz + Sr + 15"
    by (simp_all add: Sr_def)
  have near: "x - 2 * Sr \<le> of_int gx" "of_int gx \<le> x + 2 * Sr"
      "z - 2 * Sr \<le> of_int gz" "of_int gz \<le> z + 2 * Sr"
    using n Sr T unfolding Sr_def [symmetric] by linarith+
  define P where "P v \<longleftrightarrow> settled v ((gx, gz), (gx + PILLAR_SPACING cfg, gz))
      \<and> standing v ((gx, gz), (gx, gz + PILLAR_SPACING cfg))
      \<and> wall_blocks cfg (get_doorway_type ext v gx gz gx (gz + PILLAR_SPACING cfg)) z x gz gx" for v
  have fires: "\<And>v. P v \<Longrightarrow> check_cell cfg ext x z v gx gz = Inr (True, v)"
    unfolding P_def using cell_vertical_hit [OF pos(1)] by blast
  have kept: "\<And>v v'. P v \<Longrightarrow> first_discovery v v' \<Longrightarrow> P v'"
    unfolding P_def using standing_kept settled_kept by (simp add: doorway_type_kept)
  have "P w" unfolding P_def using se st wb by simp
  from collision_hit [where P = P, OF S Z grid near [unfolded Sr_def] fires kept this]
  show ?thesis .
qed

lemma wall_blocks_opening:
  assumes "0 < opening_width_of cfg ot"
  shows "wall_blocks cfg ot along across s l \<longleftrightarrow>
           \<bar>across - of_int l\<bar> < WALL_THICKNESS cfg / 2 + 15
         \<and> (of_int s \<le> along
              \<and> along \<le> of_int s + (of_int (PILLAR_SPACING cfg) - opening_width_of cfg ot) / 2 - 15
            \<or> of_int s + (of_int (PILLAR_SPACING cfg) + opening_width_of cfg ot) / 2 + 15 \<le> along
              \<and> along \<le> of_int s + of_int (PILLAR_SPACING cfg))"
  using assms unfolding wall_blocks_def Let_def by (simp add: field_simps)

lemma wall_blocks_centre:
  assumes "0 < opening_width_of cfg ot"
  shows "\<not> wall_blocks cfg ot (of_int s + of_int (PILLAR_SPACING cfg) / 2) across s l"
  using assms unfolding wall_blocks_opening [OF assms] by (simp add: field_simps)

lemma wall_blocks_solid:
  assumes "opening_width_of cfg ot \<le> 0"
  shows "wall_blocks cfg ot along across s l \<longleftrightarrow>
           of_int s - 15 \<le> along \<and> along \<le> of_int s + of_int (PILLAR_SPACING cfg) + 15
         \<and> \<bar>across - of_int l\<bar> < WALL_THICKNESS cfg / 2 + 15"
  using assms unfolding wall_blocks_def Let_def by simp

subsection \<open>The centre of an opening\<close>

text \<open>Every cell the scan visits lies on the grid, and two grid lines are at least one
  spacing apart. So at the centre of the opening of a wall no test of any cell fires,
  whatever the world has discovered: the wall's own test leaves the opening free, the
  ends of the other walls on its line are half a spacing away, and so are the walls across
  and the pillars. This holds when the spacing is more than 30, half the wall thickness
  plus 15 is at most half a spacing, and a pillar with a margin of 15 fits between the
  middle of a cell and the next grid line.\<close>

lemma py_range_aligned:
  assumes "0 < S" "g \<in> set (py_range (m * S) b S)"
  shows "g mod S = 0"
  using assms by (auto simp: py_range_def)

lemma grid_apart:
  fixes a b S :: int
  assumes "0 < S" "a mod S = 0" "b mod S = 0" "a \<noteq> b"
  shows "a + S \<le> b \<or> b + S \<le> a"
proof -
  obtain m where m: "a = m * S" using assms(2) by (metis mod_eq_0_iff_dvd dvd_def mult.commute)
  obtain n where n: "b = n * S" using assms(3) by (metis mod_eq_0_iff_dvd dvd_def mult.commute)
  have "m \<noteq> n" using assms(4) m n by auto
  then consider "m + 1 \<le> n" | "n + 1 \<le> m" by linarith
  then show ?thesis
  proof cases
    case 1
    then have "(m + 1) * S \<le> n * S" using assms(1) by (intro mult_right_mono) simp_all
    then show ?thesis by (simp add: m n algebra_simps)
  next
    case 2
    then have "(n + 1) * S \<le> m * S" using assms(1) by (intro mult_right_mono) simp_all
    then show ?thesis by (simp add: m n algebra_simps)
  qed
qed


lemma pillar_blocks_near_z:
  assumes "pillar_blocks cfg x z px pz" "0 \<le> PILLAR_SIZE cfg"
  shows "of_int pz - 15 < z \<and> z < of_int pz + PILLAR_SIZE cfg + 15"
proof -
  have "pillar_blocks cfg z x pz px"
    using assms(1) by (simp add: pillar_blocks_def Let_def add.commute)
  from pillar_blocks_near [OF this assms(2)] show ?thesis .
qed

lemma centre_cell_free:
  assumes S: "30 < PILLAR_SPACING cfg"
    and T: "WALL_THICKNESS cfg / 2 + 15 \<le> of_int (PILLAR_SPACING cfg) / 2"
    and P0: "0 \<le> PILLAR_SIZE cfg"
    and P: "PILLAR_SIZE cfg + 15 \<le> of_int (PILLAR_SPACING cfg - PILLAR_SPACING cfg div 2)"
    and grid: "gx mod PILLAR_SPACING cfg = 0" "gz mod PILLAR_SPACING cfg = 0"
    and cell: "c mod PILLAR_SPACING cfg = 0" "d mod PILLAR_SPACING cfg = 0"
    and op: "0 < opening_width_of cfg (get_doorway_type ext w gx gz (gx + PILLAR_SPACING cfg) gz)"
  shows "cell_free cfg ext w (of_int gx + of_int (PILLAR_SPACING cfg) / 2) (of_int gz) c d"
proof -
  define Sp where "Sp = PILLAR_SPACING cfg"
  define Sr :: rat where "Sr = of_int Sp"
  define G :: rat where "G = of_int gx"
  define H :: rat where "H = of_int gz"
  define C :: rat where "C = of_int c"
  define D :: rat where "D = of_int d"
  define Q :: rat where "Q = of_int (Sp div 2)"
  have pos: "0 < Sp" "0 \<le> Sp" using S by (simp_all add: Sp_def)
  have Sr: "30 < Sr" using S by (simp add: Sr_def Sp_def)
  have Q: "15 \<le> Q" "Q \<le> Sr"
  proof -
    have "15 \<le> Sp div 2" using S unfolding Sp_def by linarith
    then show "15 \<le> Q" unfolding Q_def by simp
    have "Sp div 2 \<le> Sp" using pos by linarith
    then show "Q \<le> Sr" unfolding Q_def Sr_def by simp
  qed
  have P': "PILLAR_SIZE cfg + 15 \<le> Sr - Q"
    using P by (simp add: Sr_def Q_def Sp_def)
  have T': "WALL_THICKNESS cfg / 2 + 15 \<le> Sr / 2"
    using T by (simp add: Sr_def Sp_def)
  have xa: "C = G \<or> C + Sr \<le> G \<or> G + Sr \<le> C"
  proof (cases "c = gx")
    case True
    then show ?thesis by (simp add: C_def G_def)
  next
    case False
    from grid_apart [OF pos(1) cell(1) [folded Sp_def] grid(1) [folded Sp_def] False]
    have "c + Sp \<le> gx \<or> gx + Sp \<le> c" .
    then have "(of_int (c + Sp) :: rat) \<le> of_int gx \<or> (of_int (gx + Sp) :: rat) \<le> of_int c"
      by (simp only: of_int_le_iff)
    then show ?thesis by (simp add: C_def G_def Sr_def)
  qed
  have za: "D = H \<or> D + Sr \<le> H \<or> H + Sr \<le> D"
  proof (cases "d = gz")
    case True
    then show ?thesis by (simp add: D_def H_def)
  next
    case False
    from grid_apart [OF pos(1) cell(2) [folded Sp_def] grid(2) [folded Sp_def] False]
    have "d + Sp \<le> gz \<or> gz + Sp \<le> d" .
    then have "(of_int (d + Sp) :: rat) \<le> of_int gz \<or> (of_int (gz + Sp) :: rat) \<le> of_int d"
      by (simp only: of_int_le_iff)
    then show ?thesis by (simp add: D_def H_def Sr_def)
  qed
  have h: "\<not> wall_blocks cfg (get_doorway_type ext w c d (c + Sp) d) (G + Sr / 2) H c d"
  proof (cases "c = gx \<and> d = gz")
    case True
    then show ?thesis
      using wall_blocks_centre [OF op, of gx H gz] by (simp add: G_def Sr_def Sp_def)
  next
    case False
    then have ne: "C \<noteq> G \<or> D \<noteq> H" by (auto simp: C_def G_def D_def H_def)
    show ?thesis
    proof
      assume "wall_blocks cfg (get_doorway_type ext w c d (c + Sp) d) (G + Sr / 2) H c d"
      from wall_blocks_near [OF this pos(2) [unfolded Sp_def]]
      have "\<bar>H - D\<bar> < WALL_THICKNESS cfg / 2 + 15" "C - 15 \<le> G + Sr / 2" "G + Sr / 2 \<le> C + Sr + 15"
        by (simp_all add: C_def D_def Sr_def Sp_def)
      with T' Sr xa za ne show False by linarith
    qed
  qed
  have v: "\<not> wall_blocks cfg (get_doorway_type ext w c d c (d + Sp)) H (G + Sr / 2) d c"
  proof
    assume "wall_blocks cfg (get_doorway_type ext w c d c (d + Sp)) H (G + Sr / 2) d c"
    from wall_blocks_near [OF this pos(2) [unfolded Sp_def]]
    have "\<bar>G + Sr / 2 - C\<bar> < WALL_THICKNESS cfg / 2 + 15"
      by (simp_all add: C_def D_def Sr_def Sp_def)
    with T' Sr xa show False by linarith
  qed
  have p: "\<not> pillar_blocks cfg (G + Sr / 2) H (c + Sp div 2) (d + Sp div 2)"
  proof
    assume "pillar_blocks cfg (G + Sr / 2) H (c + Sp div 2) (d + Sp div 2)"
    from pillar_blocks_near_z [OF this P0]
    have "D + Q - 15 < H" "H < D + Q + PILLAR_SIZE cfg + 15"
      by (simp_all add: D_def Q_def)
    with P' Q Sr za show False by linarith
  qed
  show ?thesis
    using h v p by (simp add: cell_free_def G_def H_def Sr_def Sp_def)
qed

lemma opening_centre_is_free:
  assumes S: "30 < PILLAR_SPACING cfg"
    and T: "WALL_THICKNESS cfg / 2 + 15 \<le> of_int (PILLAR_SPACING cfg) / 2"
    and P0: "0 \<le> PILLAR_SIZE cfg"
    and P: "PILLAR_SIZE cfg + 15 \<le> of_int (PILLAR_SPACING cfg - PILLAR_SPACING cfg div 2)"
    and Z: "ZONE_SIZE cfg \<noteq> 0"
    and grid: "gx mod PILLAR_SPACING cfg = 0" "gz mod PILLAR_SPACING cfg = 0"
    and op: "0 < opening_width_of cfg (get_doorway_type ext w gx gz (gx + PILLAR_SPACING cfg) gz)"
  shows "\<exists>w'. check_collision cfg ext w (Finite (of_int gx + of_int (PILLAR_SPACING cfg) / 2))
                 (Finite (of_int gz)) = Inr (False, w')"
proof -
  define Sp where "Sp = PILLAR_SPACING cfg"
  define x :: rat where "x = of_int gx + of_int Sp / 2"
  define z :: rat where "z = of_int gz"
  have pos: "0 < Sp" and nz: "Sp \<noteq> 0" using S by (simp_all add: Sp_def)
  define xs where "xs = py_range (\<lfloor>(x - of_int (Sp * 2)) / of_int Sp\<rfloor> * Sp)
                    (\<lfloor>(x + of_int (Sp * 2)) / of_int Sp\<rfloor> * Sp + Sp) Sp"
  define zs where "zs = py_range (\<lfloor>(z - of_int (Sp * 2)) / of_int Sp\<rfloor> * Sp)
                    (\<lfloor>(z + of_int (Sp * 2)) / of_int Sp\<rfloor> * Sp + Sp) Sp"
  have cc: "check_collision cfg ext w (Finite x) (Finite z) = scan_x cfg ext x z xs zs w"
    using nz by (simp add: check_collision_def Let_def Sp_def [symmetric] xs_def zs_def)
  have ok2: "PILLAR_SPACING cfg \<noteq> 0" using nz by (simp add: Sp_def)
  have free: "\<forall>c \<in> set xs. \<forall>d \<in> set zs. cell_free cfg ext w x z c d"
  proof (intro ballI)
    fix c d
    assume "c \<in> set xs" "d \<in> set zs"
    then have "c mod Sp = 0" "d mod Sp = 0"
      unfolding xs_def zs_def using py_range_aligned [OF pos] by blast+
    then show "cell_free cfg ext w x z c d"
      unfolding x_def z_def Sp_def
      by (intro centre_cell_free S T P0 P grid op)
  qed
  from scan_x_free [OF Z ok2 free]
  have "\<exists>w'. check_collision cfg ext w (Finite x) (Finite z) = Inr (False, w')"
    unfolding cc .
  then show ?thesis
    unfolding x_def z_def Sp_def .
qed

text \<open>The same for the vertical wall of a cell.\<close>

lemma centre_cell_free_vertical:
  assumes S: "30 < PILLAR_SPACING cfg"
    and T: "WALL_THICKNESS cfg / 2 + 15 \<le> of_int (PILLAR_SPACING cfg) / 2"
    and P0: "0 \<le> PILLAR_SIZE cfg"
    and P: "PILLAR_SIZE cfg + 15 \<le> of_int (PILLAR_SPACING cfg - PILLAR_SPACING cfg div 2)"
    and grid: "gx mod PILLAR_SPACING cfg = 0" "gz mod PILLAR_SPACING cfg = 0"
    and cell: "c mod PILLAR_SPACING cfg = 0" "d mod PILLAR_SPACING cfg = 0"
    and op: "0 < opening_width_of cfg (get_doorway_type ext w gx gz gx (gz + PILLAR_SPACING cfg))"
  shows "cell_free cfg ext w (of_int gx) (of_int gz + of_int (PILLAR_SPACING cfg) / 2) c d"
proof -
  define Sp where "Sp = PILLAR_SPACING cfg"
  define Sr :: rat where "Sr = of_int Sp"
  define G :: rat where "G = of_int gx"
  define H :: rat where "H = of_int gz"
  define C :: rat where "C = of_int c"
  define D :: rat where "D = of_int d"
  define Q :: rat where "Q = of_int (Sp div 2)"
  have pos: "0 < Sp" "0 \<le> Sp" using S by (simp_all add: Sp_def)
  have Sr: "30 < Sr" using S by (simp add: Sr_def Sp_def)
  have Q: "15 \<le> Q" "Q \<le> Sr"
  proof -
    have "15 \<le> Sp div 2" using S unfolding Sp_def by linarith
    then show "15 \<le> Q" unfolding Q_def by simp
    have "Sp div 2 \<le> Sp" using pos by linarith
    then show "Q \<le> Sr" unfolding Q_def Sr_def by simp
  qed
  have P': "PILLAR_SIZE cfg + 15 \<le> Sr - Q"
    using P by (simp add: Sr_def Q_def Sp_def)
  have T': "WALL_THICKNESS cfg / 2 + 15 \<le> Sr / 2"
    using T by (simp add: Sr_def Sp_def)
  have xa: "C = G \<or> C + Sr \<le> G \<or> G + Sr \<le> C"
  proof (cases "c = gx")
    case True
    then show ?thesis by (simp add: C_def G_def)
  next
    case False
    from grid_apart [OF pos(1) cell(1) [folded Sp_def] grid(1) [folded Sp_def] False]
    have "c + Sp \<le> gx \<or> gx + Sp \<le> c" .
    then have "(of_int (c + Sp) :: rat) \<le> of_int gx \<or> (of_int (gx + Sp) :: rat) \<le> of_int c"
      by (simp only: of_int_le_iff)
    then show ?thesis by (simp add: C_def G_def Sr_def)
  qed
  have za: "D = H \<or> D + Sr \<le> H \<or> H + Sr \<le> D"
  proof (cases "d = gz")
    case True
    then show ?thesis by (simp add: D_def H_def)
  next
    case False
    from grid_apart [OF pos(1) cell(2) [folded Sp_def] grid(2) [folded Sp_def] False]
    have "d + Sp \<le> gz \<or> gz + Sp \<le> d" .
    then have "(of_int (d + Sp) :: rat) \<le> of_int gz \<or> (of_int (gz + Sp) :: rat) \<le> of_int d"
      by (simp only: of_int_le_iff)
    then show ?thesis by (simp add: D_def H_def Sr_def)
  qed
  have h: "\<not> wall_blocks cfg (get_doorway_type ext w c d (c + Sp) d) G (H + Sr / 2) c d"
  proof
    assume "wall_blocks cfg (get_doorway_type ext w c d (c + Sp) d) G (H + Sr / 2) c d"
    from wall_blocks_near [OF this pos(2) [unfolded Sp_def]]
    have "\<bar>H + Sr / 2 - D\<bar> < WALL_THICKNESS cfg / 2 + 15"
      by (simp_all add: C_def D_def Sr_def Sp_def)
    with T' Sr za show False by linarith
  qed
  have v: "\<not> wall_blocks cfg (get_doorway_type ext w c d c (d + Sp)) (H + Sr / 2) G d c"
  proof (cases "c = gx \<and> d = gz")
    case True
    then show ?thesis
      using wall_blocks_centre [OF op, of gz G gx] by (simp add: H_def Sr_def Sp_def)
  next
    case False
    then have ne: "C \<noteq> G \<or> D \<noteq> H" by (auto simp: C_def G_def D_def H_def)
    show ?thesis
    proof
      assume "wall_blocks cfg (get_doorway_type ext w c d c (d + Sp)) (H + Sr / 2) G d c"
      from wall_blocks_near [OF this pos(2) [unfolded Sp_def]]
      have "\<bar>G - C\<bar> < WALL_THICKNESS cfg / 2 + 15" "D - 15 \<le> H + Sr / 2" "H + Sr / 2 \<le> D + Sr + 15"
        by (simp_all add: C_def D_def Sr_def Sp_def)
      with T' Sr xa za ne show False by linarith
    qed
  qed
  have p: "\<not> pillar_blocks cfg G (H + Sr / 2) (c + Sp div 2) (d + Sp div 2)"
  proof
    assume "pillar_blocks cfg G (H + Sr / 2) (c + Sp div 2) (d + Sp div 2)"
    from pillar_blocks_near [OF this P0]
    have "C + Q - 15 < G" "G < C + Q + PILLAR_SIZE cfg + 15"
      by (simp_all add: C_def Q_def)
    with P' Q Sr xa show False by linarith
  qed
  show ?thesis
    using h v p by (simp add: cell_free_def G_def H_def Sr_def Sp_def)
qed

lemma opening_centre_is_free_vertical:
  assumes S: "30 < PILLAR_SPACING cfg"
    and T: "WALL_THICKNESS cfg / 2 + 15 \<le> of_int (PILLAR_SPACING cfg) / 2"
    and P0: "0 \<le> PILLAR_SIZE cfg"
    and P: "PILLAR_SIZE cfg + 15 \<le> of_int (PILLAR_SPACING cfg - PILLAR_SPACING cfg div 2)"
    and Z: "ZONE_SIZE cfg \<noteq> 0"
    and grid: "gx mod PILLAR_SPACING cfg = 0" "gz mod PILLAR_SPACING cfg = 0"
    and op: "0 < opening_width_of cfg (get_doorway_type ext w gx gz gx (gz + PILLAR_SPACING cfg))"
  shows "\<exists>w'. check_collision cfg ext w (Finite (of_int gx))
                 (Finite (of_int gz + of_int (PILLAR_SPACING cfg) / 2)) = Inr (False, w')"
proof -
  define Sp where "Sp = PILLAR_SPACING cfg"
  define x :: rat where "x = of_int gx"
  define z :: rat where "z = of_int gz + of_int Sp / 2"
  have pos: "0 < Sp" and nz: "Sp \<noteq> 0" using S by (simp_all add: Sp_def)
  define xs where "xs = py_range (\<lfloor>(x - of_int (Sp * 2)) / of_int Sp\<rfloor> * Sp)
                    (\<lfloor>(x + of_int (Sp * 2)) / of_int Sp\<rfloor> * Sp + Sp) Sp"
  define zs where "zs = py_range (\<lfloor>(z - of_int (Sp * 2)) / of_int Sp\<rfloor> * Sp)
                    (\<lfloor>(z + of_int (Sp * 2)) / of_int Sp\<rfloor> * Sp + Sp) Sp"
  have cc: "check_collision cfg ext w (Finite x) (Finite z) = scan_x cfg ext x z xs zs w"
    using nz by (simp add: check_collision_def Let_def Sp_def [symmetric] xs_def zs_def)
  have ok2: "PILLAR_SPACING cfg \<noteq> 0" using nz by (simp add: Sp_def)
  have free: "\<forall>c \<in> set xs. \<forall>d \<in> set zs. cell_free cfg ext w x z c d"
  proof (intro ballI)
    fix c d
    assume "c \<in> set xs" "d \<in> set zs"
    then have "c mod Sp = 0" "d mod Sp = 0"
      unfolding xs_def zs_def using py_range_aligned [OF pos] by blast+
    then show "cell_free cfg ext w x z c d"
      unfolding x_def z_def Sp_def
      by (intro centre_cell_free_vertical S T P0 P grid op)
  qed
  from scan_x_free [OF Z ok2 free]
  have "\<exists>w'. check_collision cfg ext w (Finite x) (Finite z) = Inr (False, w')"
    unfolding cc .
  then show ?thesis
    unfolding x_def z_def Sp_def .
qed

subsection \<open>Walls with and without an opening\<close>

lemma example_door_types:
  "get_doorway_type example_externals example_hall_world (-400) 0 0 0 = Some ''hallway''"
  "get_doorway_type example_externals example_hall_world (-400) 0 (-400) 400 = None"
  by (simp_all add: get_doorway_type_def example_externals_def example_hall_world_def
      example_world_def World_init_def Let_def)

lemma example_hall_standing:
  "standing example_hall_world ((-400, 0), (0, 0))"
  "standing example_hall_world ((-400, 0), (-400, 400))"
  by (simp_all add: standing_def example_hall_world_def example_world_def World_init_def)

lemma example_widths:
  "opening_width_of example_config (Some ''hallway'') = 120"
  "opening_width_of example_config None = 0"
  by (simp_all add: opening_width_of_def example_config_def)

lemma example_config_values:
  "PILLAR_SPACING example_config = 400" "WALL_THICKNESS example_config = 20"
  "ZONE_SIZE example_config = 1200" "PILLAR_SIZE example_config = 80"
  by (simp_all add: example_config_def)

lemma example_ranges:
  "py_range (- 1200) 800 400 = [- 1200, - 800, - 400, 0, 400]"
  "py_range (- 800) 1200 400 = [- 800, - 400, 0, 400, 800]"
  by code_simp+

lemma example_gap_scan:
  assumes "- 275 < x" "x < - 125"
  shows "check_collision example_config example_externals example_hall_world (Finite x) (Finite 0)
     = scan_x example_config example_externals x 0 [- 1200, - 800, - 400, 0, 400]
         [- 800, - 400, 0, 400, 800] example_hall_world"
proof -
  have f: "\<lfloor>(x - 800) / 400\<rfloor> = - 3" "\<lfloor>(x + 800) / 400\<rfloor> = 1"
    using assms by (simp_all add: floor_eq_iff)
  show ?thesis
    by (simp add: check_collision_def Let_def example_config_values f example_ranges
        del: scan_x.simps scan_z.simps)
qed

lemma example_gap_cells:
  assumes x: "- 275 < x" "x < - 125"
    and "gx \<in> set [- 1200, - 800, - 400, 0, 400]" "gz \<in> set [- 800, - 400, 0, 400, 800]"
  shows "cell_free example_config example_externals example_hall_world x 0 gx gz"
proof -
  have v: "\<not> wall_blocks example_config ot 0 x gz gx" for ot
  proof
    assume "wall_blocks example_config ot 0 x gz gx"
    from wall_blocks_near [OF this] have "\<bar>x - rat_of_int gx\<bar> < 25"
      by (simp add: example_config_values)
    with assms(3) x show False by auto
  qed
  have p: "\<not> pillar_blocks example_config x 0 (gx + 200) (gz + 200)"
  proof
    assume "pillar_blocks example_config x 0 (gx + 200) (gz + 200)"
    from pillar_blocks_near_z [OF this]
    have "rat_of_int (gz + 200) - 15 < 0 \<and> 0 < rat_of_int (gz + 200) + 80 + 15"
      by (simp add: example_config_values)
    with assms(4) show False by auto
  qed
  have h: "\<not> wall_blocks example_config
            (get_doorway_type example_externals example_hall_world gx gz (gx + 400) gz) x 0 gx gz"
  proof (cases "gx = - 400 \<and> gz = 0")
    case True
    have "\<not> wall_blocks example_config (Some ''hallway'') x 0 (- 400) 0"
      using x by (simp add: wall_blocks_def example_widths example_config_values Let_def)
    with True show ?thesis by (simp add: example_door_types)
  next
    case False
    show ?thesis
    proof
      assume "wall_blocks example_config
            (get_doorway_type example_externals example_hall_world gx gz (gx + 400) gz) x 0 gx gz"
      from wall_blocks_near [OF this]
      have "\<bar>0 - rat_of_int gz\<bar> < 25 \<and> rat_of_int gx - 15 \<le> x \<and> x \<le> rat_of_int (gx + 400) + 15"
        by (simp add: example_config_values)
      with assms(3,4) x False show False by auto
    qed
  qed
  show ?thesis
    using v p h by (simp add: cell_free_def example_config_values)
qed

text \<open>In the example the whole gap of the hallway wall, widened by the radius on both
  sides, is open on the wall line.\<close>

lemma example_gap_open:
  assumes "- 275 < x" "x < - 125"
  shows "map_sum fst fst
           (check_collision example_config example_externals example_hall_world (Finite x) (Finite 0))
         = Inr False"
proof -
  have "\<exists>w'. scan_x example_config example_externals x 0 [- 1200, - 800, - 400, 0, 400]
         [- 800, - 400, 0, 400, 800] example_hall_world = Inr (False, w')"
    by (rule scan_x_free)
       (simp_all add: example_config_values example_gap_cells [OF assms] del: set_simps)
  then show ?thesis
    unfolding example_gap_scan [OF assms] by auto
qed

text \<open>
  \<^bold>\<open>C7.\<close> In \<open>example_hall_world\<close> the wall from \<open>(-400, 0)\<close> to \<open>(0, 0)\<close> is standing and has
  a hallway of width 120, which begins at \<open>-260\<close>. At the centre of the opening the query
  returns false and in the flanking strip near the wall's end it returns true, as
  claimed. But at \<open>(-265, 0)\<close>, on the wall line and 5 inside the solid part of the wall,
  it returns false: the test for a wall with an opening ends each strip one radius
  before the opening instead of one radius behind it. The test for a wall without
  opening, in the same function, does widen the wall by the radius: the wall from
  \<open>(-400, 0)\<close> to \<open>(-400, 400)\<close> has no opening, and 10 past its end, at \<open>(-400, 410)\<close>, the
  query returns true.
\<close>

theorem solid_wall_next_to_opening_not_blocked:
  "standing example_hall_world ((- 400, 0), (0, 0))
   \<and> get_doorway_type example_externals example_hall_world (- 400) 0 0 0 = Some ''hallway''
   \<and> - 400 + (of_int (PILLAR_SPACING example_config) - HALLWAY_WIDTH example_config) / 2 = (- 260 :: rat)
   \<and> map_sum fst fst (check_collision example_config example_externals example_hall_world (Finite (- 265)) (Finite 0)) = Inr False
   \<and> map_sum fst fst (check_collision example_config example_externals example_hall_world (Finite (- 200)) (Finite 0)) = Inr False
   \<and> map_sum fst fst (check_collision example_config example_externals example_hall_world (Finite (- 395)) (Finite 5)) = Inr True
   \<and> standing example_hall_world ((- 400, 0), (- 400, 400))
   \<and> get_doorway_type example_externals example_hall_world (- 400) 0 (- 400) 400 = None
   \<and> map_sum fst fst (check_collision example_config example_externals example_hall_world (Finite (- 400)) (Finite 410)) = Inr True"
proof -
  have c: "15 \<le> PILLAR_SPACING example_config"
    "WALL_THICKNESS example_config / 2 + 15 \<le> 2 * of_int (PILLAR_SPACING example_config)"
    "ZONE_SIZE example_config \<noteq> 0"
    "(- 400) mod PILLAR_SPACING example_config = 0" "0 mod PILLAR_SPACING example_config = 0"
    by (simp_all add: example_config_values)
  have st: "standing example_hall_world ((- 400, 0), (- 400 + PILLAR_SPACING example_config, 0))"
    "standing example_hall_world ((- 400, 0), (- 400, 0 + PILLAR_SPACING example_config))"
    using example_hall_standing by (simp_all add: example_config_values)
  have wb: "wall_blocks example_config
        (get_doorway_type example_externals example_hall_world (- 400) 0
           (- 400 + PILLAR_SPACING example_config) 0) (- 395) 5 (- 400) 0"
    "wall_blocks example_config
        (get_doorway_type example_externals example_hall_world (- 400) 0 (- 400)
           (0 + PILLAR_SPACING example_config)) 410 (- 400) 0 (- 400)"
    by (simp_all add: example_config_values example_door_types wall_blocks_def example_widths Let_def)
  from collision_horizontal [OF c st(1) wb(1)]
  have strip: "map_sum fst fst (check_collision example_config example_externals example_hall_world (Finite (- 395)) (Finite 5)) = Inr True"
    by auto
  from collision_vertical [OF c standing_settled [OF st(1)] st(2) wb(2)]
  have past: "map_sum fst fst (check_collision example_config example_externals example_hall_world (Finite (- 400)) (Finite 410)) = Inr True"
    by auto
  have edge: "map_sum fst fst (check_collision example_config example_externals example_hall_world (Finite (- 265)) (Finite 0)) = Inr False"
    by (rule example_gap_open) simp_all
  have centre: "map_sum fst fst (check_collision example_config example_externals example_hall_world (Finite (- 200)) (Finite 0)) = Inr False"
    by (rule example_gap_open) simp_all
  have start: "- 400 + (of_int (PILLAR_SPACING example_config) - HALLWAY_WIDTH example_config) / 2
      = (- 260 :: rat)"
    by (simp add: example_config_def)
  show ?thesis
    using example_hall_standing example_door_types start edge centre strip past
    by (intro conjI)
qed

subsection \<open>A collision query that discovers a destroyed wall\<close>

lemma scan_x_first_cell:
  assumes "check_cell cfg ext x z w gx gz = Inr (b, w1)"
  shows "first_discovery w1 (world_after (scan_x cfg ext x z (gx # xs) (gz # zs) w))"
proof -
  define r where "r = scan_z cfg ext x z gx (gz # zs) w"
  have r: "r = (if b then Inr (True, w1) else scan_z cfg ext x z gx zs w1)"
    using assms by (simp add: r_def)
  have sx: "scan_x cfg ext x z (gx # xs) (gz # zs) w =
      (case r of Inl err \<Rightarrow> Inl err
       | Inr (hit, w2) \<Rightarrow> if hit then Inr (True, w2) else scan_x cfg ext x z xs (gz # zs) w2)"
    by (simp only: scan_x.simps r_def)
  have d: "first_discovery w1 (world_after r)"
    unfolding r by (simp add: first_discovery_refl scan_z_discovery)
  show ?thesis
  proof (cases r)
    case (Inl err)
    with d show ?thesis unfolding sx by (cases err) simp
  next
    case (Inr p)
    obtain hit w2 where p: "p = (hit, w2)" by (cases p)
    with d Inr have d2: "first_discovery w1 w2" by simp
    from d2 scan_x_discovery [of w2 cfg ext x z xs "gz # zs"]
    have "first_discovery w1 (world_after (scan_x cfg ext x z xs (gz # zs) w2))"
      by (rule first_discovery_trans)
    with d2 Inr p show ?thesis unfolding sx by simp
  qed
qed

lemma example_first_wall:
  "\<exists>w1. has_wall_between example_config example_externals example_world (- 800) (- 800) (- 400) (- 800)
          = Inr (True, w1)
        \<and> ((- 800, - 800), (- 400, - 800)) \<in> set (destroyed_walls w1)"
  by (simp add: has_wall_between_def roll_pre_damage_def get_zone_at_def get_zone_properties_def
      sorted_key_def point_less_def uniform_def Let_def
      example_config_def example_externals_def example_world_def World_init_def)

lemma example_scan_135:
  "check_collision example_config example_externals example_world (Finite 135) (Finite 0)
     = scan_x example_config example_externals 135 0 [- 800, - 400, 0, 400, 800]
         [- 800, - 400, 0, 400, 800] example_world"
proof -
  have f: "\<lfloor>- (133 / 80 :: rat)\<rfloor> = - 2" "\<lfloor>187 / 80 :: rat\<rfloor> = 2"
    by (simp_all add: floor_eq_iff)
  show ?thesis
    by (simp add: check_collision_def Let_def example_config_values f example_ranges
        del: scan_x.simps scan_z.simps)
qed

theorem check_collision_only_discovers_witness:
  "((- 800, - 800), (- 400, - 800))
      \<in> set (destroyed_walls (world_after
            (check_collision example_config example_externals example_world (Finite 135) (Finite 0))))
          - set (destroyed_walls example_world)
   \<and> map_of (wall_cache example_world) ((- 800, - 800), (- 400, - 800)) = None
   \<and> (\<exists>d. map_of (pre_damaged_walls (world_after
            (check_collision example_config example_externals example_world (Finite 135) (Finite 0))))
            ((- 800, - 800), (- 400, - 800)) = Some d \<and> d < 2 / 10)
   \<and> wall_health (world_after
        (check_collision example_config example_externals example_world (Finite 135) (Finite 0))) = []
   \<and> debris_pieces (world_after
        (check_collision example_config example_externals example_world (Finite 135) (Finite 0))) = []"
proof -
  define w' where "w' = world_after
        (check_collision example_config example_externals example_world (Finite 135) (Finite 0))"
  obtain w1 where w1: "has_wall_between example_config example_externals example_world (- 800) (- 800) (- 400) (- 800)
          = Inr (True, w1)" "((- 800, - 800), (- 400, - 800)) \<in> set (destroyed_walls w1)"
    using example_first_wall by blast
  have cell: "check_cell example_config example_externals 135 0 example_world (- 800) (- 800) = Inr (False, w1)"
    using w1 by (simp add: check_cell_def Let_def example_config_values sorted_key_def point_less_def)
  have "first_discovery w1 w'"
    unfolding w'_def example_scan_135 using cell by (rule scan_x_first_cell)
  then have mem: "((- 800, - 800), (- 400, - 800)) \<in> set (destroyed_walls w')"
    using w1(2) unfolding first_discovery_def by blast
  have old: "destroyed_walls example_world = []" "wall_health example_world = []"
    "debris_pieces example_world = []" "wall_cache example_world = []"
    by (simp_all add: example_world_def World_init_def)
  from check_collision_only_discovers [of example_world example_config example_externals "Finite 135" "Finite 0"]
  have "first_discovery example_world w'" by (simp add: w'_def)
  with mem old show ?thesis
    unfolding first_discovery_def w'_def [symmetric] by auto
qed

subsection \<open>Determinism of the generator\<close>

lemma has_pillar_at_again:
  assumes "has_pillar_at cfg ext w px pz = Inr (b, w')"
  shows "has_pillar_at cfg ext w' px pz = Inr (b, w')"
proof (cases "map_of (pillar_cache w) (px, pz)")
  case (Some c)
  with assms show ?thesis by (simp add: has_pillar_at_def)
next
  case None
  with assms have "map_of (pillar_cache w') (px, pz) = Some b"
    by (auto simp: has_pillar_at_def Let_def update_conv' split: if_splits)
  then show ?thesis by (simp add: has_pillar_at_def)
qed

lemma has_pillar_at_seed_only:
  assumes "world_seed w1 = world_seed w2"
    "map_of (pillar_cache w1) (px, pz) = None" "map_of (pillar_cache w2) (px, pz) = None"
  shows "map_sum fst fst (has_pillar_at cfg ext w1 px pz) = map_sum fst fst (has_pillar_at cfg ext w2 px pz)"
  using assms by (simp add: has_pillar_at_def Let_def)

lemma has_wall_between_again:
  assumes "has_wall_between cfg ext w x1 z1 x2 z2 = Inr (b, w')"
  shows "has_wall_between cfg ext w' x1 z1 x2 z2 = Inr (b, w')"
proof (cases "map_of (wall_cache w) (sorted_key (x1, z1) (x2, z2))")
  case (Some c)
  with assms show ?thesis by (simp add: has_wall_between_def)
next
  case None
  with assms have "map_of (wall_cache w') (sorted_key (x1, z1) (x2, z2)) = Some b"
    by (auto simp: has_wall_between_def Let_def update_conv' split: if_splits sum.splits)
  then show ?thesis by (simp add: has_wall_between_def)
qed

lemma get_doorway_type_seed_only:
  "world_seed w1 = world_seed w2 \<Longrightarrow>
     get_doorway_type ext w1 x1 z1 x2 z2 = get_doorway_type ext w2 x1 z1 x2 z2"
  by (simp add: get_doorway_type_def)

lemma get_zone_properties_reads:
  assumes "world_seed w1 = world_seed w2" "map_of (zone_cache w1) = map_of (zone_cache w2)"
  shows "fst (get_zone_properties ext w1 zx zz) = fst (get_zone_properties ext w2 zx zz)"
  using assms by (simp add: get_zone_properties_def Let_def split: option.splits)

lemma get_zone_properties_keeps:
  "world_seed (snd (get_zone_properties ext w zx zz)) = world_seed w"
  "pre_damaged_walls (snd (get_zone_properties ext w zx zz)) = pre_damaged_walls w"
  "destroyed_walls (snd (get_zone_properties ext w zx zz)) = destroyed_walls w"
  "wall_cache (snd (get_zone_properties ext w zx zz)) = wall_cache w"
  by (simp_all add: get_zone_properties_def Let_def split: option.splits)

text \<open>What the pre-damage roll leaves for its key, as a function of the seed, the zone's
  decay chance and the coordinates.\<close>

lemma roll_pre_damage_outcome:
  assumes "get_zone_at cfg (of_int (x1 + x2) / 2) (of_int (z1 + z2) / 2) = Inr zone"
  shows "\<exists>w'. roll_pre_damage cfg ext w key x1 z1 x2 z2 = Inr w'
     \<and> wall_cache w' = wall_cache w
     \<and> map_of (pre_damaged_walls w') key =
         (let rng = Random ext (x1 * 7919 + z1 * 6577 + x2 * 4993 + z2 * 3571 + world_seed w * 9973)
          in if rng 0 < decay_chance (fst (get_zone_properties ext w (fst zone) (snd zone)))
             then Some (uniform 0 (5 / 10) (rng 1)) else map_of (pre_damaged_walls w) key)
     \<and> (key \<in> set (destroyed_walls w') \<longleftrightarrow>
         (let rng = Random ext (x1 * 7919 + z1 * 6577 + x2 * 4993 + z2 * 3571 + world_seed w * 9973)
          in (rng 0 < decay_chance (fst (get_zone_properties ext w (fst zone) (snd zone)))
               \<and> uniform 0 (5 / 10) (rng 1) < 2 / 10)
             \<or> key \<in> set (destroyed_walls w)))"
proof -
  obtain props w1 where g: "get_zone_properties ext w (fst zone) (snd zone) = (props, w1)"
    by (cases "get_zone_properties ext w (fst zone) (snd zone)")
  have k: "world_seed w1 = world_seed w" "pre_damaged_walls w1 = pre_damaged_walls w"
    "destroyed_walls w1 = destroyed_walls w" "wall_cache w1 = wall_cache w"
    using get_zone_properties_keeps [of ext w "fst zone" "snd zone"] g by simp_all
  show ?thesis
    using assms g k by (simp add: roll_pre_damage_def Let_def update_conv')
qed

lemma pre_damage_outcome_reads:
  assumes seed: "world_seed w1 = world_seed w2"
    and wc: "map_of (wall_cache w1) (sorted_key (x1, z1) (x2, z2))
              = map_of (wall_cache w2) (sorted_key (x1, z1) (x2, z2))"
    and pd: "map_of (pre_damaged_walls w1) (sorted_key (x1, z1) (x2, z2))
              = map_of (pre_damaged_walls w2) (sorted_key (x1, z1) (x2, z2))"
    and zc: "map_of (zone_cache w1) = map_of (zone_cache w2)"
    and dw: "sorted_key (x1, z1) (x2, z2) \<in> set (destroyed_walls w1)
              \<longleftrightarrow> sorted_key (x1, z1) (x2, z2) \<in> set (destroyed_walls w2)"
  shows "pre_damage_outcome cfg ext w1 x1 z1 x2 z2 = pre_damage_outcome cfg ext w2 x1 z1 x2 z2"
proof -
  define key where "key = sorted_key (x1, z1) (x2, z2)"
  note wc' = wc [folded key_def] and pd' = pd [folded key_def] and dw' = dw [folded key_def]
  show ?thesis
  proof (cases "map_of (wall_cache w1) key")
    case (Some b)
    then have c2: "map_of (wall_cache w2) key = Some b" using wc' by simp
    have h1: "has_wall_between cfg ext w1 x1 z1 x2 z2 = Inr (b, w1)"
      using Some by (simp add: has_wall_between_def key_def [symmetric])
    have h2: "has_wall_between cfg ext w2 x1 z1 x2 z2 = Inr (b, w2)"
      using c2 by (simp add: has_wall_between_def key_def [symmetric])
    show ?thesis
      using pd' dw' by (simp add: pre_damage_outcome_def h1 h2 key_def [symmetric])
  next
    case None
    then have n2: "map_of (wall_cache w2) key = None" using wc' by simp
    show ?thesis
    proof (cases "z1 = z2 \<or> x1 = x2")
      case False
      have h1: "has_wall_between cfg ext w1 x1 z1 x2 z2
                  = Inr (False, w1\<lparr>wall_cache := AList.update key False (wall_cache w1)\<rparr>)"
        using None False by (simp add: has_wall_between_def key_def [symmetric] Let_def)
      have h2: "has_wall_between cfg ext w2 x1 z1 x2 z2
                  = Inr (False, w2\<lparr>wall_cache := AList.update key False (wall_cache w2)\<rparr>)"
        using n2 False by (simp add: has_wall_between_def key_def [symmetric] Let_def)
      show ?thesis
        using pd' dw' by (simp add: pre_damage_outcome_def h1 h2 key_def [symmetric])
    next
      case True
      show ?thesis
      proof (cases "map_of (pre_damaged_walls w1) key")
        case (Some d)
        then have d2: "map_of (pre_damaged_walls w2) key = Some d" using pd' by simp
        have h1: "has_wall_between cfg ext w1 x1 z1 x2 z2
                  = Inr (True, w1\<lparr>wall_cache := AList.update key True (wall_cache w1)\<rparr>)"
          using None True Some by (auto simp: has_wall_between_def key_def [symmetric] Let_def)
        have h2: "has_wall_between cfg ext w2 x1 z1 x2 z2
                  = Inr (True, w2\<lparr>wall_cache := AList.update key True (wall_cache w2)\<rparr>)"
          using n2 True d2 by (auto simp: has_wall_between_def key_def [symmetric] Let_def)
        show ?thesis
          using pd' dw' by (simp add: pre_damage_outcome_def h1 h2 key_def [symmetric])
      next
        case pdn: None
        show ?thesis
        proof (cases "get_zone_at cfg (of_int (x1 + x2) / 2) (of_int (z1 + z2) / 2)")
          case (Inl e)
          have pdn2: "map_of (pre_damaged_walls w2) key = None" using pdn pd' by simp
          have h1: "has_wall_between cfg ext w1 x1 z1 x2 z2 = Inl (e, w1)"
            using None True pdn Inl
            by (auto simp: has_wall_between_def key_def [symmetric] Let_def roll_pre_damage_def)
          have h2: "has_wall_between cfg ext w2 x1 z1 x2 z2 = Inl (e, w2)"
            using n2 True pdn2 Inl
            by (auto simp: has_wall_between_def key_def [symmetric] Let_def roll_pre_damage_def)
          show ?thesis
            using pd' dw' by (simp add: pre_damage_outcome_def h1 h2 key_def [symmetric])
        next
          case (Inr zone)
          from roll_pre_damage_outcome [OF Inr, of ext w1 key]
          obtain v1 where v1: "roll_pre_damage cfg ext w1 key x1 z1 x2 z2 = Inr v1"
            "map_of (pre_damaged_walls v1) key =
              (let rng = Random ext (x1 * 7919 + z1 * 6577 + x2 * 4993 + z2 * 3571 + world_seed w1 * 9973)
               in if rng 0 < decay_chance (fst (get_zone_properties ext w1 (fst zone) (snd zone)))
                  then Some (uniform 0 (5 / 10) (rng 1)) else map_of (pre_damaged_walls w1) key)"
            "key \<in> set (destroyed_walls v1) \<longleftrightarrow>
              (let rng = Random ext (x1 * 7919 + z1 * 6577 + x2 * 4993 + z2 * 3571 + world_seed w1 * 9973)
               in (rng 0 < decay_chance (fst (get_zone_properties ext w1 (fst zone) (snd zone)))
                    \<and> uniform 0 (5 / 10) (rng 1) < 2 / 10)
                  \<or> key \<in> set (destroyed_walls w1))"
            by blast
          from roll_pre_damage_outcome [OF Inr, of ext w2 key]
          obtain v2 where v2: "roll_pre_damage cfg ext w2 key x1 z1 x2 z2 = Inr v2"
            "map_of (pre_damaged_walls v2) key =
              (let rng = Random ext (x1 * 7919 + z1 * 6577 + x2 * 4993 + z2 * 3571 + world_seed w2 * 9973)
               in if rng 0 < decay_chance (fst (get_zone_properties ext w2 (fst zone) (snd zone)))
                  then Some (uniform 0 (5 / 10) (rng 1)) else map_of (pre_damaged_walls w2) key)"
            "key \<in> set (destroyed_walls v2) \<longleftrightarrow>
              (let rng = Random ext (x1 * 7919 + z1 * 6577 + x2 * 4993 + z2 * 3571 + world_seed w2 * 9973)
               in (rng 0 < decay_chance (fst (get_zone_properties ext w2 (fst zone) (snd zone)))
                    \<and> uniform 0 (5 / 10) (rng 1) < 2 / 10)
                  \<or> key \<in> set (destroyed_walls w2))"
            by blast
          have props: "fst (get_zone_properties ext w1 (fst zone) (snd zone))
                     = fst (get_zone_properties ext w2 (fst zone) (snd zone))"
            using seed zc by (rule get_zone_properties_reads)
          have same: "map_of (pre_damaged_walls v1) key = map_of (pre_damaged_walls v2) key"
            "key \<in> set (destroyed_walls v1) \<longleftrightarrow> key \<in> set (destroyed_walls v2)"
            unfolding v1(2,3) v2(2,3) props seed using pd' dw' by (simp_all add: Let_def)
          have h1: "has_wall_between cfg ext w1 x1 z1 x2 z2
                    = Inr (True, v1\<lparr>wall_cache := AList.update key True (wall_cache v1)\<rparr>)"
            using None True pdn v1(1) by (auto simp: has_wall_between_def key_def [symmetric] Let_def)
          have pdn2: "map_of (pre_damaged_walls w2) key = None" using pdn pd' by simp
          have h2: "has_wall_between cfg ext w2 x1 z1 x2 z2
                    = Inr (True, v2\<lparr>wall_cache := AList.update key True (wall_cache v2)\<rparr>)"
            using n2 True pdn2 v2(1) by (auto simp: has_wall_between_def key_def [symmetric] Let_def)
          show ?thesis
            using same by (simp add: pre_damage_outcome_def h1 h2 key_def [symmetric])
        qed
      qed
    qed
  qed
qed

lemma pre_damage_outcome_again:
  assumes "has_wall_between cfg ext w x1 z1 x2 z2 = Inr (b, w')"
  shows "pre_damage_outcome cfg ext w' x1 z1 x2 z2 = pre_damage_outcome cfg ext w x1 z1 x2 z2"
  using has_wall_between_again [OF assms] assms by (simp add: pre_damage_outcome_def)

text \<open>
  \<^bold>\<open>C8.\<close> With the generators of Python (\<open>hash\<close>, \<open>random.Random(seed)\<close>) and
  \<open>ProceduralZone\<close> taken as functions of their arguments:
  \<^item> a second call of \<open>has_pillar_at\<close> or \<open>has_wall_between\<close> with the same coordinates on
    the world the first call left returns the same value and changes nothing, so the
    pre-damage outcome is the same;
  \<^item> on two worlds with the same seed, \<open>has_pillar_at\<close> agrees where neither has the pillar
    cached, the pre-damage outcome of \<open>has_wall_between\<close> agrees where the two worlds agree
    on the wall's cache entry, pre-damage entry and destroyed flag and on the zone cache,
    and \<open>get_doorway_type\<close> agrees always;
  \<^item> in particular all three agree on two fresh instances built with the same seed.
\<close>

theorem generator_is_deterministic:
  "(has_pillar_at cfg ext w px pz = Inr (b, w') \<longrightarrow> has_pillar_at cfg ext w' px pz = Inr (b, w'))
   \<and> (world_seed wa = world_seed wb
        \<and> map_of (pillar_cache wa) (px, pz) = None \<and> map_of (pillar_cache wb) (px, pz) = None
      \<longrightarrow> map_sum fst fst (has_pillar_at cfg ext wa px pz) = map_sum fst fst (has_pillar_at cfg ext wb px pz))
   \<and> (has_wall_between cfg ext v xa za xb zb = Inr (c, v')
      \<longrightarrow> has_wall_between cfg ext v' xa za xb zb = Inr (c, v')
        \<and> pre_damage_outcome cfg ext v' xa za xb zb = pre_damage_outcome cfg ext v xa za xb zb)
   \<and> (world_seed wa = world_seed wb
        \<and> map_of (wall_cache wa) (sorted_key (xa, za) (xb, zb))
            = map_of (wall_cache wb) (sorted_key (xa, za) (xb, zb))
        \<and> map_of (pre_damaged_walls wa) (sorted_key (xa, za) (xb, zb))
            = map_of (pre_damaged_walls wb) (sorted_key (xa, za) (xb, zb))
        \<and> map_of (zone_cache wa) = map_of (zone_cache wb)
        \<and> (sorted_key (xa, za) (xb, zb) \<in> set (destroyed_walls wa)
              \<longleftrightarrow> sorted_key (xa, za) (xb, zb) \<in> set (destroyed_walls wb))
      \<longrightarrow> pre_damage_outcome cfg ext wa xa za xb zb = pre_damage_outcome cfg ext wb xa za xb zb)
   \<and> (world_seed wa = world_seed wb
      \<longrightarrow> get_doorway_type ext wa xa za xb zb = get_doorway_type ext wb xa za xb zb)
   \<and> map_sum fst fst (has_pillar_at cfg ext (World_init (Some seed) ra) px pz)
       = map_sum fst fst (has_pillar_at cfg ext (World_init (Some seed) rb) px pz)
   \<and> pre_damage_outcome cfg ext (World_init (Some seed) ra) xa za xb zb
       = pre_damage_outcome cfg ext (World_init (Some seed) rb) xa za xb zb
   \<and> get_doorway_type ext (World_init (Some seed) ra) xa za xb zb
       = get_doorway_type ext (World_init (Some seed) rb) xa za xb zb"
proof -
  have fresh: "World_init (Some seed) ra = World_init (Some seed) rb"
    by (simp add: World_init_def)
  show ?thesis
    using has_pillar_at_again [of cfg ext w px pz b w']
      has_pillar_at_seed_only [of wa wb px pz cfg ext]
      has_wall_between_again [of cfg ext v xa za xb zb c v']
      pre_damage_outcome_again [of cfg ext v xa za xb zb c v']
      pre_damage_outcome_reads [of wa wb xa za xb zb cfg ext]
      get_doorway_type_seed_only [of wa wb ext xa za xb zb]
    unfolding fresh by blast
qed

lemma example_seeds:
  "world_seed example_world = 7" "world_seed example_hall_world = 7"
  by (simp_all add: example_hall_world_def example_world_def World_init_def)

theorem generator_is_deterministic_witness:
  "(\<exists>b w'. has_pillar_at example_config example_externals example_world 200 200 = Inr (b, w')
          \<and> has_pillar_at example_config example_externals w' 200 200 = Inr (b, w'))
   \<and> world_seed example_world = world_seed example_hall_world
   \<and> map_of (pillar_cache example_world) (200, 200) = None
   \<and> map_of (pillar_cache example_hall_world) (200, 200) = None
   \<and> map_sum fst fst (has_pillar_at example_config example_externals example_world 200 200)
       = map_sum fst fst (has_pillar_at example_config example_externals example_hall_world 200 200)
   \<and> (\<exists>v'. has_wall_between example_config example_externals example_world (- 800) (- 800) (- 400) (- 800)
             = Inr (True, v')
          \<and> has_wall_between example_config example_externals v' (- 800) (- 800) (- 400) (- 800)
             = Inr (True, v'))
   \<and> map_of (wall_cache example_world) (sorted_key (- 800, - 800) (- 400, - 800))
       = map_of (wall_cache example_hall_world) (sorted_key (- 800, - 800) (- 400, - 800))
   \<and> map_of (zone_cache example_world) = map_of (zone_cache example_hall_world)
   \<and> pre_damage_outcome example_config example_externals example_world (- 800) (- 800) (- 400) (- 800)
       = pre_damage_outcome example_config example_externals example_hall_world (- 800) (- 800) (- 400) (- 800)
   \<and> get_doorway_type example_externals example_world (- 800) (- 800) (- 400) (- 800)
       = get_doorway_type example_externals example_hall_world (- 800) (- 800) (- 400) (- 800)"
proof -
  have "\<not> isl (has_pillar_at example_config example_externals example_world 200 200)"
    by (rule has_pillar_at_returns) (simp add: example_config_values)
  from not_isl_result [OF this]
  obtain b w' where p: "has_pillar_at example_config example_externals example_world 200 200 = Inr (b, w')"
    by blast
  obtain v' where v: "has_wall_between example_config example_externals example_world (- 800) (- 800) (- 400) (- 800)
          = Inr (True, v')"
    using example_first_wall by blast
  have hyps: "world_seed example_world = world_seed example_hall_world"
    "map_of (pillar_cache example_world) (200, 200) = None"
    "map_of (pillar_cache example_hall_world) (200, 200) = None"
    "map_of (wall_cache example_world) (sorted_key (- 800, - 800) (- 400, - 800))
       = map_of (wall_cache example_hall_world) (sorted_key (- 800, - 800) (- 400, - 800))"
    "map_of (pre_damaged_walls example_world) (sorted_key (- 800, - 800) (- 400, - 800))
       = map_of (pre_damaged_walls example_hall_world) (sorted_key (- 800, - 800) (- 400, - 800))"
    "map_of (zone_cache example_world) = map_of (zone_cache example_hall_world)"
    "sorted_key (- 800, - 800) (- 400, - 800) \<in> set (destroyed_walls example_world)
       \<longleftrightarrow> sorted_key (- 800, - 800) (- 400, - 800) \<in> set (destroyed_walls example_hall_world)"
    by (simp_all add: example_hall_world_def example_world_def World_init_def sorted_key_def point_less_def)
  from generator_is_deterministic [of example_config example_externals example_world 200 200 b w'
      example_world example_hall_world example_world "- 800" "- 800" "- 400" "- 800" True v'
      7 example_rand example_rand] p v hyps
  show ?thesis by blast
qed

end
